theory Spec2Isabelle
  imports Main
begin

section \<open>JavaScript string primitives used by the editor\<close>

text \<open>
  A JavaScript string is modelled as a \<open>string\<close> (a list of characters, one per code
  unit), an index or a length as an \<open>int\<close>. Only the string methods the editor calls are
  modelled, with their behaviour on every argument written out.
\<close>

text \<open>
  \<^verbatim>\<open>s.substring(start, end)\<close>: both arguments are clamped to \<open>[0, s.length]\<close> and
  swapped when the first exceeds the second; nothing is ever raised.
\<close>

definition substring :: "string \<Rightarrow> int \<Rightarrow> int \<Rightarrow> string" where
  "substring s start stop =
     (let len = int (length s);
          a = min (max start 0) len;
          b = min (max stop 0) len
      in take (nat (max a b - min a b)) (drop (nat (min a b)) s))"

text \<open>
  \<^verbatim>\<open>s.indexOf(t)\<close>: the smallest index at which \<open>t\<close> occurs in \<open>s\<close>, or \<open>-1\<close>. The
  empty string occurs at index 0 of every string.
\<close>

fun indexOf :: "string \<Rightarrow> string \<Rightarrow> int" where
  "indexOf [] t = (if t = [] then 0 else - 1)"
| "indexOf (c # cs) t =
     (if take (length t) (c # cs) = t then 0
      else (let r = indexOf cs t in if r = - 1 then - 1 else r + 1))"

text \<open>
  \<^verbatim>\<open>s.trim()\<close> removes white space and line terminators from both ends. Of the code
  units ECMAScript lists, those that fit a \<open>char\<close> are TAB, LF, VT, FF, CR, SP and NBSP.
\<close>

definition isWhiteSpace :: "char \<Rightarrow> bool" where
  "isWhiteSpace c = (c \<in> {CHR 0x09, CHR 0x0A, CHR 0x0B, CHR 0x0C, CHR 0x0D, CHR 0x20, CHR 0xA0})"

definition trim :: "string \<Rightarrow> string" where
  "trim s = rev (dropWhile isWhiteSpace (rev (dropWhile isWhiteSpace s)))"

text \<open>\<open>occurs_at s t j\<close>: the text \<open>t\<close> is the part of \<open>s\<close> that starts at index \<open>j\<close>.\<close>

definition occurs_at :: "string \<Rightarrow> string \<Rightarrow> nat \<Rightarrow> bool" where
  "occurs_at s t j = (j + length t \<le> length s \<and> take (length t) (drop j s) = t)"

text \<open>\<open>first_occurrence s t i\<close>: \<open>i\<close> is the smallest index at which \<open>t\<close> occurs in \<open>s\<close>.\<close>

definition first_occurrence :: "string \<Rightarrow> string \<Rightarrow> nat \<Rightarrow> bool" where
  "first_occurrence s t i = (occurs_at s t i \<and> (\<forall>k<i. \<not> occurs_at s t k))"


section \<open>The manuscript viewer: reporting a selection\<close>

text \<open>
  What the browser hands to \<^verbatim>\<open>handleMouseUp\<close>: the text of the selected range
  (\<^verbatim>\<open>range.toString()\<close>) and the text rendered before it (\<^verbatim>\<open>preRange.toString()\<close>),
  whose length is the start offset. \<open>preText = None\<close> stands for an exception raised while
  the pre-range is built, which the handler catches. The whole value is \<open>None\<close> when
  there is no content element or no selection range.
\<close>

record dom_selection =
  preText :: "string option"
  rangeText :: string

text \<open>
  \<^verbatim>\<open>handleMouseUp\<close> of ManuscriptViewer.tsx, the revision that computes an offset pair. The
  result is the call it makes to \<^verbatim>\<open>onTextSelection(start, end, text)\<close>, \<open>None\<close> when it
  returns without calling. Console output and the \<^verbatim>\<open>isSelecting\<close> flag are left out.
\<close>

definition handleMouseUp :: "string \<Rightarrow> dom_selection option \<Rightarrow> (int \<times> int \<times> string) option" where
  "handleMouseUp content rng =
     (case rng of
        None \<Rightarrow> None
      | Some r \<Rightarrow>
          (let selectedText = rangeText r in
           if length (trim selectedText) = 0 then None
           else
             (case preText r of
                Some textBeforeSelection \<Rightarrow>
                  (let startIndex = int (length textBeforeSelection);
                       endIndex = startIndex + int (length selectedText)
                   in if startIndex \<ge> 0 \<and> endIndex \<le> int (length content) \<and> startIndex < endIndex
                      then Some (startIndex, endIndex, selectedText)
                      else
                        (let trimmedText = trim selectedText;
                             fallbackStart = indexOf content trimmedText
                         in if fallbackStart \<noteq> - 1
                            then Some (fallbackStart, fallbackStart + int (length trimmedText), trimmedText)
                            else None))
              | None \<Rightarrow>
                  (let trimmedText = trim selectedText;
                       startIndex = indexOf content trimmedText
                   in if startIndex \<noteq> - 1
                      then Some (startIndex, startIndex + int (length trimmedText), trimmedText)
                      else None))))"

text \<open>
  \<^verbatim>\<open>handleMouseUp\<close> of the other revision of ManuscriptViewer.tsx, which has no offset
  pair: it trims the selected text and searches for it.
\<close>

definition handleMouseUp_indexOf :: "string \<Rightarrow> dom_selection option \<Rightarrow> (int \<times> int \<times> string) option" where
  "handleMouseUp_indexOf content rng =
     (case rng of
        None \<Rightarrow> None
      | Some r \<Rightarrow>
          (let selectedText = trim (rangeText r) in
           if length selectedText = 0 then None
           else
             (let startIndex = indexOf content selectedText
              in if startIndex \<noteq> - 1
                 then Some (startIndex, startIndex + int (length selectedText), selectedText)
                 else None)))"


section \<open>The book editor: accepting a selection\<close>

record selection =
  sel_start :: int
  sel_end :: int
  sel_text :: string

text \<open>
  \<^verbatim>\<open>EditOption\<close> of the API client. Its field \<^verbatim>\<open>diff: any[]\<close> holds whatever JSON values the
  server sent; the editor never reads it.
\<close>

datatype json = JNull | JBool bool | JNum int | JStr string | JArr "json list" | JObj "(string \<times> json) list"

record edit_option =
  option_id :: string
  label :: string
  before :: string
  after :: string
  diff :: "json list"
  severity :: string

text \<open>
  The state of the \<^verbatim>\<open>BookEditor\<close> component: its \<^verbatim>\<open>useState\<close> cells and the content
  query's data (\<open>None\<close> while the content is not loaded).
\<close>

record editor_state =
  manuscriptId :: "string option"
  manuscriptContent :: "string option"
  selection :: "selection option"
  editSessionId :: "string option"
  editOptions :: "edit_option list"
  isLoading :: bool
  showHistory :: bool

text \<open>
  \<^verbatim>\<open>handleTextSelection(start, end, text)\<close>. The test \<^verbatim>\<open>manuscriptContent?.content\<close> is
  false for missing data and for the empty string.
\<close>

definition handleTextSelection :: "editor_state \<Rightarrow> int \<Rightarrow> int \<Rightarrow> string \<Rightarrow> editor_state" where
  "handleTextSelection st start stop txt =
     (case manuscriptContent st of
        None \<Rightarrow> st
      | Some content \<Rightarrow>
          if start \<ge> 0 \<and> stop > start \<and> length txt > 0 \<and> content \<noteq> [] then
            (let actualText = substring content start stop in
             if actualText = txt
             then st\<lparr>selection := Some \<lparr>sel_start = start, sel_end = stop, sel_text = txt\<rparr>,
                     editSessionId := None,
                     editOptions := []\<rparr>
             else st)
          else st)"

text \<open>
  A mouse-up in the rendered viewer. \<^verbatim>\<open>BookEditor\<close> renders the viewer only when the
  manuscript id and the content data are present, passes it \<^verbatim>\<open>manuscriptContent.content\<close>
  and \<^verbatim>\<open>handleTextSelection\<close> as \<^verbatim>\<open>onTextSelection\<close>.
\<close>

definition viewerRendered :: "editor_state \<Rightarrow> bool" where
  "viewerRendered st =
     ((case manuscriptId st of None \<Rightarrow> False | Some i \<Rightarrow> i \<noteq> []) \<and> manuscriptContent st \<noteq> None)"

definition mouseUp ::
  "(string \<Rightarrow> dom_selection option \<Rightarrow> (int \<times> int \<times> string) option) \<Rightarrow>
   editor_state \<Rightarrow> dom_selection option \<Rightarrow> editor_state" where
  "mouseUp handler st rng =
     (if viewerRendered st then
        (case manuscriptContent st of
           None \<Rightarrow> st
         | Some content \<Rightarrow>
             (case handler content rng of
                None \<Rightarrow> st
              | Some (start, stop, txt) \<Rightarrow> handleTextSelection st start stop txt))
      else st)"

text \<open>
  The invariant of the specification for a stored selection, against the content it was
  taken from.
\<close>

definition valid_selection :: "string \<Rightarrow> selection \<Rightarrow> bool" where
  "valid_selection content sel =
     (0 \<le> sel_start sel \<and> sel_start sel < sel_end sel \<and> sel_end sel \<le> int (length content) \<and>
      take (nat (sel_end sel - sel_start sel)) (drop (nat (sel_start sel)) content) = sel_text sel)"

text \<open>The state after a selection has been stored by \<^verbatim>\<open>handleTextSelection\<close>.\<close>

definition stored :: "editor_state \<Rightarrow> selection \<Rightarrow> editor_state" where
  "stored st sel = st\<lparr>selection := Some sel, editSessionId := None, editOptions := []\<rparr>"


section \<open>The book editor: sessions, apply and undo\<close>

text \<open>The response of \<^verbatim>\<open>POST /edits/suggest\<close> and the request of \<^verbatim>\<open>POST /edits/apply\<close>.\<close>

record edit_suggest_response =
  edit_session_id :: string
  options :: "edit_option list"

record apply_edit_request =
  req_edit_session_id :: string
  req_option_id :: string

text \<open>
  The callbacks of \<^verbatim>\<open>suggestEditsMutation\<close> and \<^verbatim>\<open>applyEditMutation\<close>. A successful apply
  also asks for the content again; the new content arrives later, as \<open>contentFetched\<close>.
\<close>

definition suggestEdits_onSuccess :: "editor_state \<Rightarrow> edit_suggest_response \<Rightarrow> editor_state" where
  "suggestEdits_onSuccess st data =
     st\<lparr>editSessionId := Some (edit_session_id data), editOptions := options data, isLoading := False\<rparr>"

definition suggestEdits_onError :: "editor_state \<Rightarrow> editor_state" where
  "suggestEdits_onError st = st\<lparr>isLoading := False\<rparr>"

definition applyEdit_onSuccess :: "editor_state \<Rightarrow> editor_state" where
  "applyEdit_onSuccess st = st\<lparr>editSessionId := None, editOptions := [], selection := None\<rparr>"

definition applyEdit_onError :: "editor_state \<Rightarrow> editor_state" where
  "applyEdit_onError st = st"

text \<open>The content query delivers new data (after \<^verbatim>\<open>refetchContent\<close>).\<close>

definition contentFetched :: "editor_state \<Rightarrow> string \<Rightarrow> editor_state" where
  "contentFetched st c = st\<lparr>manuscriptContent := Some c\<rparr>"

text \<open>
  \<^verbatim>\<open>handleApplyEdit(optionId)\<close>: the request handed to \<^verbatim>\<open>applyEditMutation.mutate\<close>, \<open>None\<close>
  when the handler returns at \<^verbatim>\<open>if (!editSessionId)\<close>, which is also taken for the empty
  string.
\<close>

definition handleApplyEdit :: "editor_state \<Rightarrow> string \<Rightarrow> apply_edit_request option" where
  "handleApplyEdit st optionId =
     (case editSessionId st of
        None \<Rightarrow> None
      | Some sid \<Rightarrow>
          if sid = [] then None
          else Some \<lparr>req_edit_session_id = sid, req_option_id = optionId\<rparr>)"

text \<open>
  \<^verbatim>\<open>handleSuggestEdits(instruction)\<close>: when there is a selection and a manuscript id, it
  sets the loading flag and sends a request whose target range is that of the stored
  selection; otherwise it returns at once. The result is the new state and the request
  sent, if any.
\<close>

record edit_suggest_request =
  req_manuscript_id :: string
  req_instruction :: string
  req_target_range :: "int \<times> int"
  req_k :: int
  req_num_options :: int

definition handleSuggestEdits :: "editor_state \<Rightarrow> string \<Rightarrow> editor_state \<times> edit_suggest_request option" where
  "handleSuggestEdits st instruction =
     (case selection st of
        None \<Rightarrow> (st, None)
      | Some sel \<Rightarrow>
          (case manuscriptId st of
             None \<Rightarrow> (st, None)
           | Some mid \<Rightarrow>
               if mid = [] then (st, None)
               else (st\<lparr>isLoading := True\<rparr>,
                     Some \<lparr>req_manuscript_id = mid, req_instruction = instruction,
                           req_target_range = (sel_start sel, sel_end sel),
                           req_k = 6, req_num_options = 3\<rparr>)))"

text \<open>The editor as mounted: nothing selected, no session.\<close>

definition initial_state :: editor_state where
  "initial_state =
     \<lparr>manuscriptId = None, manuscriptContent = None, selection = None, editSessionId = None,
      editOptions = [], isLoading = False, showHistory = False\<rparr>"

text \<open>
  The states the editor can reach through its selection and session handlers.
  \<open>reachable st r\<close>: the editor can be in state \<open>st\<close>, and \<open>r\<close> is the latest suggestion
  response it received, provided that no selection was accepted and no apply succeeded
  since (\<open>None\<close> otherwise). A mouse-up that changes the state has accepted a selection.
\<close>

inductive reachable :: "editor_state \<Rightarrow> edit_suggest_response option \<Rightarrow> bool" where
  r_init: "reachable (initial_state\<lparr>manuscriptId := m\<rparr>) None"
| r_content: "reachable st r \<Longrightarrow> reachable (contentFetched st c) r"
| r_mouseUp: "reachable st r \<Longrightarrow>
     reachable (mouseUp handleMouseUp st rng) (if mouseUp handleMouseUp st rng = st then r else None)"
| r_mouseUp_indexOf: "reachable st r \<Longrightarrow>
     reachable (mouseUp handleMouseUp_indexOf st rng)
       (if mouseUp handleMouseUp_indexOf st rng = st then r else None)"
| r_suggest: "reachable st r \<Longrightarrow> reachable (fst (handleSuggestEdits st instruction)) r"
| r_suggest_ok: "reachable st r \<Longrightarrow> reachable (suggestEdits_onSuccess st data) (Some data)"
| r_suggest_err: "reachable st r \<Longrightarrow> reachable (suggestEdits_onError st) r"
| r_apply_ok: "reachable st r \<Longrightarrow> reachable (applyEdit_onSuccess st) None"
| r_apply_err: "reachable st r \<Longrightarrow> reachable (applyEdit_onError st) r"

text \<open>An entry of the history response and the response itself (\<^verbatim>\<open>history.versions\<close> may be missing).\<close>

record version_info =
  version_id :: string
  version_tag :: string
  created_at :: string
  is_current :: bool

record history_response =
  versions :: "version_info list option"

text \<open>
  \<^verbatim>\<open>handleUndo\<close>: the calls it makes to \<^verbatim>\<open>manuscriptApi.revert(manuscriptId, versionId)\<close>.
  \<open>hist = None\<close> stands for a failed history request (caught by the handler), \<open>confirmed\<close>
  for the answer to \<^verbatim>\<open>window.confirm\<close>.
\<close>

definition handleUndo :: "string option \<Rightarrow> history_response option \<Rightarrow> bool \<Rightarrow> (string \<times> string) list" where
  "handleUndo mid hist confirmed =
     (case mid of
        None \<Rightarrow> []
      | Some m \<Rightarrow>
          if m = [] then []
          else
            (case hist of
               None \<Rightarrow> []
             | Some history \<Rightarrow>
                 (case versions history of
                    None \<Rightarrow> []
                  | Some vs \<Rightarrow>
                      if length vs < 2 then []
                      else
                        (let previousVersion = vs ! 1 in
                         if \<not> confirmed then []
                         else [(m, version_id previousVersion)]))))"

text \<open>
  \<^verbatim>\<open>handleRevert(version)\<close> of the history dialog followed by \<^verbatim>\<open>handleRevertToVersion\<close>: the
  current version is not offered for restoring, and the user confirms.
\<close>

definition handleRevert :: "string option \<Rightarrow> version_info \<Rightarrow> bool \<Rightarrow> (string \<times> string) list" where
  "handleRevert mid version confirmed =
     (if is_current version then []
      else if confirmed then
        (case mid of None \<Rightarrow> [] | Some m \<Rightarrow> if m = [] then [] else [(m, version_id version)])
      else [])"


section \<open>The diff viewer\<close>

record simple_diff =
  removed :: string
  added :: string

text \<open>\<^verbatim>\<open>computeSimpleDiff(oldText, newText)\<close> and the \<^verbatim>\<open>hasChanges\<close> flag of DiffViewer.tsx.\<close>

definition computeSimpleDiff :: "string \<Rightarrow> string \<Rightarrow> simple_diff" where
  "computeSimpleDiff oldText newText =
     \<lparr>removed = (if oldText \<noteq> newText then oldText else []),
      added = (if oldText \<noteq> newText then newText else oldText)\<rparr>"

definition hasChanges :: "string \<Rightarrow> string \<Rightarrow> bool" where
  "hasChanges b a = (b \<noteq> a)"

text \<open>
  The diff of the specification, to compare \<^verbatim>\<open>computeSimpleDiff\<close> with: hunks with an
  operation and a text, what a hunk sequence reconstructs, word tokens, and the number of
  tokens a hunk sequence inserts or deletes.
\<close>

datatype diff_op = OpEqual | OpInsert | OpDelete

record diff_hunk =
  hunk_op :: diff_op
  hunk_text :: string

definition spec_reconstruct_after :: "diff_hunk list \<Rightarrow> string" where
  "spec_reconstruct_after hs = concat (map hunk_text (filter (\<lambda>h. hunk_op h \<noteq> OpDelete) hs))"

definition spec_reconstruct_before :: "diff_hunk list \<Rightarrow> string" where
  "spec_reconstruct_before hs = concat (map hunk_text (filter (\<lambda>h. hunk_op h \<noteq> OpInsert) hs))"

text \<open>
  Splitting at white-space boundaries: maximal runs of white space and maximal runs of
  other characters, each a token.
\<close>

fun spec_tokenize :: "string \<Rightarrow> string list" where
  "spec_tokenize [] = []"
| "spec_tokenize (c # cs) =
     (case spec_tokenize cs of
        [] \<Rightarrow> [[c]]
      | t # ts \<Rightarrow>
          (case t of
             [] \<Rightarrow> [c] # ts
           | d # _ \<Rightarrow> if isWhiteSpace c = isWhiteSpace d then (c # t) # ts else [c] # t # ts))"

definition spec_edit_cost :: "diff_hunk list \<Rightarrow> nat" where
  "spec_edit_cost hs =
     sum_list (map (\<lambda>h. length (spec_tokenize (hunk_text h))) (filter (\<lambda>h. hunk_op h \<noteq> OpEqual) hs))"

text \<open>
  The two texts of a \<^verbatim>\<open>computeSimpleDiff\<close> result read as hunks: what it shows as removed
  is a delete hunk, what it shows as added an insert hunk.
\<close>

definition simple_diff_hunks :: "simple_diff \<Rightarrow> diff_hunk list" where
  "simple_diff_hunks d =
     [\<lparr>hunk_op = OpDelete, hunk_text = removed d\<rparr>, \<lparr>hunk_op = OpInsert, hunk_text = added d\<rparr>]"

text \<open>An editor state used to evaluate the handlers on concrete inputs.\<close>

definition example_state :: "string \<Rightarrow> editor_state" where
  "example_state content =
     \<lparr>manuscriptId = Some ''m1'', manuscriptContent = Some content, selection = None,
      editSessionId = Some ''s1'',
      editOptions = [\<lparr>option_id = ''o1'', label = ''A'', before = ''old'', after = ''new'',
                      diff = [], severity = ''light''\<rparr>],
      isLoading = False, showHistory = False\<rparr>"


text \<open>A suggestion response and a history of two versions, for the same purpose.\<close>

definition example_response :: edit_suggest_response where
  "example_response =
     \<lparr>edit_session_id = ''s2'',
      options = [\<lparr>option_id = ''o2'', label = ''A'', before = ''Hello'', after = ''Hi'',
                  diff = [], severity = ''light''\<rparr>]\<rparr>"

definition example_history :: history_response where
  "example_history =
     \<lparr>versions = Some
        [\<lparr>version_id = ''v2'', version_tag = ''2025-10-05 13:39:07'', created_at = ''t2'', is_current = True\<rparr>,
         \<lparr>version_id = ''v1'', version_tag = ''2025-10-05 13:00:00'', created_at = ''t1'', is_current = False\<rparr>]\<rparr>"


text \<open>The editor after mounting for manuscript \<open>m1\<close> and loading the content \<open>Hello world\<close>.\<close>

definition loaded_state :: editor_state where
  "loaded_state = contentFetched (initial_state\<lparr>manuscriptId := Some ''m1''\<rparr>) ''Hello world''"


section \<open>The server's version store and edit sessions\<close>

text \<open>
  The server (the \<^verbatim>\<open>api/\<close> tree: routes behind \<^verbatim>\<open>/manuscripts/{id}/revert\<close>,
  \<^verbatim>\<open>/manuscripts/{id}/history\<close> and \<^verbatim>\<open>/edits/apply\<close>) is not among the source files; the
  client only posts to it. The definitions of this section follow the specification.
  Identifiers and timestamps are natural numbers drawn from one counter of the store.
\<close>

datatype error = NotFound | StaleBase | Conflict | InvalidRange | SelectionUnresolved | SuggestionUnavailable

record version =
  v_id :: nat
  v_manuscriptId :: nat
  v_content :: string
  v_versionTag :: nat
  v_createdAt :: nat
  v_parentVersionId :: "nat option"

record manuscript =
  m_id :: nat
  m_title :: string
  m_author :: "string option"
  m_createdAt :: nat
  m_currentVersionId :: nat

text \<open>
  Modelled from the spec: the Content Store (server code, missing from the sources). It
  holds the manuscripts by id, every version ever created, newest first, and the counter.
\<close>

record store =
  st_manuscripts :: "nat \<rightharpoonup> manuscript"
  st_versions :: "version list"
  st_clock :: nat

definition empty_store :: store where
  "empty_store = \<lparr>st_manuscripts = Map.empty, st_versions = [], st_clock = 0\<rparr>"

text \<open>
  Modelled from the spec: \<^verbatim>\<open>appendVersion(manuscriptId, content, parentVersionId?)\<close> of the
  missing Content Store: creates a version and moves the current pointer to it in one step;
  \<open>NotFound\<close> for an unknown manuscript.
\<close>

definition appendVersion :: "store \<Rightarrow> nat \<Rightarrow> string \<Rightarrow> nat option \<Rightarrow> error + (version \<times> store)" where
  "appendVersion s mid content parent =
     (case st_manuscripts s mid of
        None \<Rightarrow> Inl NotFound
      | Some m \<Rightarrow>
          (let v = \<lparr>v_id = st_clock s, v_manuscriptId = mid, v_content = content,
                    v_versionTag = st_clock s, v_createdAt = st_clock s,
                    v_parentVersionId = parent\<rparr>
           in Inr (v, s\<lparr>st_manuscripts := (st_manuscripts s)(mid \<mapsto> m\<lparr>m_currentVersionId := v_id v\<rparr>),
                         st_versions := v # st_versions s,
                         st_clock := Suc (st_clock s)\<rparr>)))"

text \<open>
  Modelled from the spec: \<^verbatim>\<open>createManuscript(title, author?, content)\<close> of the missing
  Content Store: creates the manuscript and its first version, which is current.
\<close>

definition createManuscript :: "store \<Rightarrow> string \<Rightarrow> string option \<Rightarrow> string \<Rightarrow> manuscript \<times> store" where
  "createManuscript s title author content =
     (let mid = st_clock s;
          v = \<lparr>v_id = st_clock s, v_manuscriptId = mid, v_content = content,
               v_versionTag = st_clock s, v_createdAt = st_clock s, v_parentVersionId = None\<rparr>;
          m = \<lparr>m_id = mid, m_title = title, m_author = author, m_createdAt = st_clock s,
               m_currentVersionId = v_id v\<rparr>
      in (m, s\<lparr>st_manuscripts := (st_manuscripts s)(mid \<mapsto> m),
                st_versions := v # st_versions s,
                st_clock := Suc (st_clock s)\<rparr>))"

text \<open>
  Modelled from the spec: the lookup of a version of a manuscript by id, and
  \<^verbatim>\<open>getCurrent\<close>, \<^verbatim>\<open>getContent\<close> and \<^verbatim>\<open>listVersions\<close> (newest first) of the missing server.
\<close>

definition getVersion :: "store \<Rightarrow> nat \<Rightarrow> nat \<Rightarrow> version option" where
  "getVersion s mid vid = find (\<lambda>v. v_id v = vid \<and> v_manuscriptId v = mid) (st_versions s)"

definition getCurrent :: "store \<Rightarrow> nat \<Rightarrow> error + version" where
  "getCurrent s mid =
     (case st_manuscripts s mid of
        None \<Rightarrow> Inl NotFound
      | Some m \<Rightarrow>
          (case getVersion s mid (m_currentVersionId m) of
             None \<Rightarrow> Inl NotFound
           | Some v \<Rightarrow> Inr v))"

definition getContent :: "store \<Rightarrow> nat \<Rightarrow> error + string" where
  "getContent s mid = (case getCurrent s mid of Inl e \<Rightarrow> Inl e | Inr v \<Rightarrow> Inr (v_content v))"

definition listVersions :: "store \<Rightarrow> nat \<Rightarrow> version list" where
  "listVersions s mid = filter (\<lambda>v. v_manuscriptId v = mid) (st_versions s)"

text \<open>
  Modelled from the spec: \<^verbatim>\<open>listHistory\<close> of the missing Version Manager: the entries
  \<open>{id, versionTag, createdAt, isCurrent}\<close>, newest first.
\<close>

record history_entry =
  h_id :: nat
  h_versionTag :: nat
  h_createdAt :: nat
  h_isCurrent :: bool

definition listHistory :: "store \<Rightarrow> nat \<Rightarrow> error + history_entry list" where
  "listHistory s mid =
     (case st_manuscripts s mid of
        None \<Rightarrow> Inl NotFound
      | Some m \<Rightarrow>
          Inr (map (\<lambda>v. \<lparr>h_id = v_id v, h_versionTag = v_versionTag v, h_createdAt = v_createdAt v,
                          h_isCurrent = (v_id v = m_currentVersionId m)\<rparr>)
                   (listVersions s mid)))"

text \<open>
  Modelled from the spec: \<^verbatim>\<open>commit(manuscriptId, expectedBaseVersionId, newContent)\<close> of the
  missing Version Manager: \<open>StaleBase\<close> when the expected base is not the current version,
  else a new version whose parent is the expected base.
\<close>

definition commit :: "store \<Rightarrow> nat \<Rightarrow> nat \<Rightarrow> string \<Rightarrow> error + (version \<times> store)" where
  "commit s mid expectedBaseVersionId newContent =
     (case st_manuscripts s mid of
        None \<Rightarrow> Inl NotFound
      | Some m \<Rightarrow>
          if expectedBaseVersionId \<noteq> m_currentVersionId m then Inl StaleBase
          else appendVersion s mid newContent (Some expectedBaseVersionId))"

text \<open>
  Modelled from the spec: \<^verbatim>\<open>revert(manuscriptId, targetVersionId)\<close> of the missing Version
  Manager: \<open>NotFound\<close> when the target is not a version of the manuscript, else a new
  version with a copy of the target's content, whose parent is the current version.
\<close>

definition revert :: "store \<Rightarrow> nat \<Rightarrow> nat \<Rightarrow> error + (version \<times> store)" where
  "revert s mid targetVersionId =
     (case st_manuscripts s mid of
        None \<Rightarrow> Inl NotFound
      | Some m \<Rightarrow>
          (case getVersion s mid targetVersionId of
             None \<Rightarrow> Inl NotFound
           | Some target \<Rightarrow> appendVersion s mid (v_content target) (Some (m_currentVersionId m))))"

text \<open>
  The invariant of the store in the data model of the specification: identifiers and
  timestamps are below the counter, version ids are distinct, every version belongs to a
  known manuscript, the versions are in descending order of creation, and the current
  pointer of every manuscript references one of its versions.
\<close>

definition wf_store :: "store \<Rightarrow> bool" where
  "wf_store s =
     ((\<forall>v \<in> set (st_versions s).
         v_id v < st_clock s \<and> v_createdAt v < st_clock s \<and> v_manuscriptId v \<in> dom (st_manuscripts s)) \<and>
      distinct (map v_id (st_versions s)) \<and>
      sorted_wrt (>) (map v_createdAt (st_versions s)) \<and>
      (\<forall>mid m. st_manuscripts s mid = Some m \<longrightarrow>
         (\<exists>v \<in> set (st_versions s). v_id v = m_currentVersionId m \<and> v_manuscriptId v = mid)))"

text \<open>
  Modelled from the spec: the edit sessions of the missing Edit Session Manager, with the
  state machine's states, the options of a session and the recorded target range.
\<close>

datatype session_status = CREATED | SUGGESTING | OPTIONS_READY | APPLIED | DISCARDED

datatype severity_level = SevLight | SevMedium | SevBold

record session_option =
  o_optionId :: nat
  o_label :: string
  o_before :: string
  o_after :: string
  o_diff :: "diff_hunk list"
  o_severity :: severity_level

record edit_session =
  es_id :: nat
  es_manuscriptId :: nat
  es_baseVersionId :: nat
  es_rangeStart :: nat
  es_rangeEnd :: nat
  es_selectedText :: string
  es_instruction :: string
  es_options :: "session_option list"
  es_status :: session_status

record system =
  sys_store :: store
  sys_sessions :: "nat \<rightharpoonup> edit_session"

text \<open>\<open>content[start:end]\<close> for offsets that are natural numbers.\<close>

definition slice :: "string \<Rightarrow> nat \<Rightarrow> nat \<Rightarrow> string" where
  "slice content start stop = take (stop - start) (drop start content)"

text \<open>
  Modelled from the spec: \<^verbatim>\<open>applyEdit(sessionId, optionId)\<close> of the missing Edit Session
  Manager. An unknown session or option is \<open>NotFound\<close>, and so is a session that is not
  waiting for a choice (a terminal session is unreachable). The current content is fetched
  again and compared with the option's \<open>before\<close> at the recorded range: on a mismatch the
  result is \<open>Conflict\<close> and the session is discarded; on a match the new content is
  committed against the session's base version, a stale base being reported as
  \<open>Conflict\<close> too.
\<close>

definition applyEdit :: "system \<Rightarrow> nat \<Rightarrow> nat \<Rightarrow> (error + version) \<times> system" where
  "applyEdit sys sessionId optionId =
     (case sys_sessions sys sessionId of
        None \<Rightarrow> (Inl NotFound, sys)
      | Some sess \<Rightarrow>
          if es_status sess \<noteq> OPTIONS_READY then (Inl NotFound, sys)
          else
            (case find (\<lambda>opt. o_optionId opt = optionId) (es_options sess) of
               None \<Rightarrow> (Inl NotFound, sys)
             | Some opt \<Rightarrow>
                 (case getContent (sys_store sys) (es_manuscriptId sess) of
                    Inl e \<Rightarrow> (Inl e, sys)
                  | Inr content \<Rightarrow>
                      (let discarded = sys\<lparr>sys_sessions :=
                             (sys_sessions sys)(sessionId \<mapsto> sess\<lparr>es_status := DISCARDED\<rparr>)\<rparr>
                       in if slice content (es_rangeStart sess) (es_rangeEnd sess) \<noteq> o_before opt
                          then (Inl Conflict, discarded)
                          else
                            (let newContent = take (es_rangeStart sess) content @ o_after opt @
                                              drop (es_rangeEnd sess) content
                             in case commit (sys_store sys) (es_manuscriptId sess)
                                       (es_baseVersionId sess) newContent of
                                  Inl e \<Rightarrow> (Inl (if e = StaleBase then Conflict else e), discarded)
                                | Inr (v, s') \<Rightarrow>
                                    (Inr v,
                                     sys\<lparr>sys_store := s',
                                         sys_sessions :=
                                           (sys_sessions sys)(sessionId \<mapsto> sess\<lparr>es_status := APPLIED\<rparr>)\<rparr>))))))"

text \<open>A store with one manuscript and two versions, and a session on it, for evaluation.\<close>

definition example_store :: store where
  "example_store =
     \<lparr>st_manuscripts =
        [0 \<mapsto> \<lparr>m_id = 0, m_title = ''Tale'', m_author = None, m_createdAt = 0, m_currentVersionId = 1\<rparr>],
      st_versions =
        [\<lparr>v_id = 1, v_manuscriptId = 0, v_content = ''A feline sat.'', v_versionTag = 1,
          v_createdAt = 1, v_parentVersionId = Some 0\<rparr>,
         \<lparr>v_id = 0, v_manuscriptId = 0, v_content = ''A cat sat.'', v_versionTag = 0,
          v_createdAt = 0, v_parentVersionId = None\<rparr>],
      st_clock = 2\<rparr>"

definition example_session :: edit_session where
  "example_session =
     \<lparr>es_id = 7, es_manuscriptId = 0, es_baseVersionId = 0, es_rangeStart = 2, es_rangeEnd = 5,
      es_selectedText = ''cat'', es_instruction = ''make more vivid'',
      es_options = [\<lparr>o_optionId = 1, o_label = ''A'', o_before = ''cat'', o_after = ''tabby'',
                     o_diff = [], o_severity = SevLight\<rparr>],
      es_status = OPTIONS_READY\<rparr>"

definition example_system :: system where
  "example_system = \<lparr>sys_store = example_store, sys_sessions = [7 \<mapsto> example_session]\<rparr>"


section \<open>Facts about the string primitives\<close>

lemma substring_in_range:
  assumes "0 \<le> a" "a \<le> b" "b \<le> int (length s)"
  shows "substring s a b = take (nat (b - a)) (drop (nat a) s)"
  using assms by (simp add: substring_def Let_def min_def max_def)

lemma substring_full_length:
  assumes "0 \<le> a" "a < b" "int (length (substring s a b)) = b - a"
  shows "b \<le> int (length s)"
  using assms by (auto simp add: substring_def Let_def min_def max_def split: if_splits)

lemma indexOf_range: "indexOf s t = - 1 \<or> 0 \<le> indexOf s t"
  by (induction s) (auto simp add: Let_def)

lemma indexOf_occurs:
  "indexOf s t \<noteq> - 1 \<Longrightarrow> occurs_at s t (nat (indexOf s t))"
proof (induction s)
  case Nil
  then show ?case by (simp add: occurs_at_def split: if_splits)
next
  case (Cons c cs)
  show ?case
  proof (cases "take (length t) (c # cs) = t")
    case True
    then have "length t = min (length (c # cs)) (length t)"
      by (metis length_take)
    then have "length t \<le> length (c # cs)" by linarith
    with True show ?thesis by (simp add: occurs_at_def)
  next
    case False
    with Cons.prems have r: "indexOf cs t \<noteq> - 1"
      by (auto simp add: Let_def split: if_splits)
    then have o: "occurs_at cs t (nat (indexOf cs t))" by (rule Cons.IH)
    have nn: "0 \<le> indexOf cs t" using r indexOf_range [of cs t] by auto
    have "indexOf (c # cs) t = indexOf cs t + 1" using False r by (simp add: Let_def)
    then have "nat (indexOf (c # cs) t) = Suc (nat (indexOf cs t))" using nn by simp
    with o show ?thesis by (simp add: occurs_at_def)
  qed
qed

lemma indexOf_least:
  "occurs_at s t j \<Longrightarrow> indexOf s t \<noteq> - 1 \<and> nat (indexOf s t) \<le> j"
proof (induction s arbitrary: j)
  case Nil
  then show ?case by (simp add: occurs_at_def)
next
  case (Cons c cs)
  show ?case
  proof (cases "take (length t) (c # cs) = t")
    case True
    then show ?thesis by simp
  next
    case False
    with Cons.prems obtain k where k: "j = Suc k"
      by (cases j) (auto simp add: occurs_at_def)
    with Cons.prems have "occurs_at cs t k" by (simp add: occurs_at_def)
    then have ih: "indexOf cs t \<noteq> - 1 \<and> nat (indexOf cs t) \<le> k" by (rule Cons.IH)
    have nn: "0 \<le> indexOf cs t" using ih indexOf_range [of cs t] by auto
    have "indexOf (c # cs) t = indexOf cs t + 1" using False ih by (simp add: Let_def)
    with ih nn k show ?thesis by auto
  qed
qed

lemma indexOf_absent:
  "indexOf s t = - 1 \<longleftrightarrow> (\<forall>j. \<not> occurs_at s t j)"
  using indexOf_occurs indexOf_least by blast

section \<open>What the viewer reports and what the editor stores\<close>

lemma fallback_bounds:
  assumes "indexOf content u \<noteq> - 1" "u \<noteq> []"
  shows "0 \<le> indexOf content u \<and> indexOf content u < indexOf content u + int (length u) \<and>
         indexOf content u + int (length u) \<le> int (length content)"
proof -
  from assms have "occurs_at content u (nat (indexOf content u))" using indexOf_occurs by simp
  moreover have "0 \<le> indexOf content u" using assms indexOf_range [of content u] by auto
  ultimately show ?thesis using assms by (auto simp add: occurs_at_def)
qed

lemma handleMouseUp_unfold:
  "handleMouseUp content (Some r) =
     (if trim (rangeText r) = [] then None
      else if (\<exists>p. preText r = Some p \<and> rangeText r \<noteq> [] \<and>
                  int (length p) + int (length (rangeText r)) \<le> int (length content))
      then Some (int (length (the (preText r))),
                 int (length (the (preText r))) + int (length (rangeText r)), rangeText r)
      else if indexOf content (trim (rangeText r)) \<noteq> - 1
      then Some (indexOf content (trim (rangeText r)),
                 indexOf content (trim (rangeText r)) + int (length (trim (rangeText r))),
                 trim (rangeText r))
      else None)"
  by (cases "preText r") (simp_all add: handleMouseUp_def Let_def)

lemma handleMouseUp_reports:
  assumes "handleMouseUp content rng = Some (s, e, t)"
  shows "0 \<le> s \<and> s < e \<and> e \<le> int (length content) \<and> e = s + int (length t)"
proof -
  from assms obtain r where r: "rng = Some r"
    by (cases rng) (simp_all add: handleMouseUp_def)
  let ?u = "trim (rangeText r)"
  have ne: "?u \<noteq> []"
    using assms r by (auto simp add: handleMouseUp_unfold split: if_splits)
  show ?thesis
  proof (cases "\<exists>p. preText r = Some p \<and> rangeText r \<noteq> [] \<and>
                  int (length p) + int (length (rangeText r)) \<le> int (length content)")
    case True
    with assms r ne show ?thesis by (auto simp add: handleMouseUp_unfold)
  next
    case False
    with assms r ne have i: "indexOf content ?u \<noteq> - 1"
      and eq: "s = indexOf content ?u" "e = indexOf content ?u + int (length ?u)" "t = ?u"
      by (auto simp add: handleMouseUp_unfold split: if_splits)
    from fallback_bounds [OF i ne] eq show ?thesis by simp
  qed
qed

lemma handleMouseUp_indexOf_reports:
  assumes "handleMouseUp_indexOf content rng = Some (s, e, t)"
  shows "0 \<le> s \<and> s < e \<and> e \<le> int (length content) \<and> e = s + int (length t)"
proof -
  from assms obtain r where r: "rng = Some r" "t = trim (rangeText r)" "t \<noteq> []"
    "s = indexOf content t" "s \<noteq> - 1" "e = s + int (length t)"
    by (auto simp add: handleMouseUp_indexOf_def Let_def split: option.splits if_splits)
  then have "occurs_at content t (nat s)" using indexOf_occurs by simp
  moreover have "0 \<le> s" using r indexOf_range [of content t] by auto
  ultimately show ?thesis using r by (auto simp add: occurs_at_def)
qed

lemma handleTextSelection_cases:
  "handleTextSelection st s e t = st \<or>
   (\<exists>c. manuscriptContent st = Some c \<and> 0 \<le> s \<and> s < e \<and> substring c s e = t \<and>
        handleTextSelection st s e t = stored st \<lparr>sel_start = s, sel_end = e, sel_text = t\<rparr>)"
  by (auto simp add: handleTextSelection_def stored_def Let_def split: option.splits)

lemma reported_selection_valid:
  assumes "0 \<le> s" "s < e" "e = s + int (length t)" "substring c s e = t"
  shows "valid_selection c \<lparr>sel_start = s, sel_end = e, sel_text = t\<rparr>"
proof -
  have "int (length (substring c s e)) = e - s" using assms by simp
  then have le: "e \<le> int (length c)" using assms substring_full_length by blast
  then have "substring c s e = take (nat (e - s)) (drop (nat s) c)"
    using assms substring_in_range [of s e c] by simp
  with assms le show ?thesis by (simp add: valid_selection_def)
qed

lemma mouseUp_cases:
  assumes rep: "\<And>content s e t. handler content rng = Some (s, e, t) \<Longrightarrow>
            0 \<le> s \<and> s < e \<and> e \<le> int (length content) \<and> e = s + int (length t)"
  shows "mouseUp handler st rng = st \<or>
     (\<exists>c sel. manuscriptContent st = Some c \<and> valid_selection c sel \<and>
              mouseUp handler st rng = stored st sel)"
proof (cases "viewerRendered st")
  case False
  then show ?thesis by (simp add: mouseUp_def)
next
  case True
  then obtain c where c: "manuscriptContent st = Some c" by (auto simp add: viewerRendered_def)
  show ?thesis
  proof (cases "handler c rng")
    case None
    with True c show ?thesis by (simp add: mouseUp_def)
  next
    case (Some call)
    obtain s e t where call: "call = (s, e, t)" by (cases call)
    with Some have m: "mouseUp handler st rng = handleTextSelection st s e t"
      using True c by (simp add: mouseUp_def)
    from Some call rep have b: "0 \<le> s \<and> s < e \<and> e = s + int (length t)" by blast
    from handleTextSelection_cases [of st s e t] show ?thesis
    proof
      assume "handleTextSelection st s e t = st"
      with m show ?thesis by simp
    next
      assume "\<exists>c. manuscriptContent st = Some c \<and> 0 \<le> s \<and> s < e \<and> substring c s e = t \<and>
        handleTextSelection st s e t = stored st \<lparr>sel_start = s, sel_end = e, sel_text = t\<rparr>"
      then have sub: "substring c s e = t"
        and h: "handleTextSelection st s e t = stored st \<lparr>sel_start = s, sel_end = e, sel_text = t\<rparr>"
        using c by auto
      have "valid_selection c \<lparr>sel_start = s, sel_end = e, sel_text = t\<rparr>"
        using b sub by (intro reported_selection_valid) auto
      with c h m show ?thesis by auto
    qed
  qed
qed

text \<open>
  At the moment of a mouse-up the editor is sound: it either leaves the state as it was, or
  stores a selection (and clears the session) that satisfies
  \<open>0 \<le> start < end \<le> length content\<close> with \<open>content[start:end]\<close> equal to the stored text,
  for the content it was taken from. This holds for both revisions of the viewer.
  \<^verbatim>\<open>handleTextSelection\<close> alone does not compare \<open>end\<close> with the length; the bound follows
  because the viewer always reports \<open>end = start + length text\<close>. The target range of a
  suggestion request is the range of the stored selection, whatever the content is by then.
\<close>

lemma accepted_selection_valid:
  "(mouseUp handleMouseUp st rng = st \<or>
      (\<exists>c sel. manuscriptContent st = Some c \<and> valid_selection c sel \<and>
               mouseUp handleMouseUp st rng = stored st sel)) \<and>
   (mouseUp handleMouseUp_indexOf st rng = st \<or>
      (\<exists>c sel. manuscriptContent st = Some c \<and> valid_selection c sel \<and>
               mouseUp handleMouseUp_indexOf st rng = stored st sel)) \<and>
   (snd (handleSuggestEdits st instruction) = Some req \<longrightarrow>
      (\<exists>sel. selection st = Some sel \<and> req_target_range req = (sel_start sel, sel_end sel)))"
proof -
  have one: "mouseUp handleMouseUp st rng = st \<or>
      (\<exists>c sel. manuscriptContent st = Some c \<and> valid_selection c sel \<and>
               mouseUp handleMouseUp st rng = stored st sel)"
    using mouseUp_cases [of handleMouseUp rng st] handleMouseUp_reports by meson
  have two: "mouseUp handleMouseUp_indexOf st rng = st \<or>
      (\<exists>c sel. manuscriptContent st = Some c \<and> valid_selection c sel \<and>
               mouseUp handleMouseUp_indexOf st rng = stored st sel)"
    using mouseUp_cases [of handleMouseUp_indexOf rng st] handleMouseUp_indexOf_reports by meson
  have three: "snd (handleSuggestEdits st instruction) = Some req \<longrightarrow>
      (\<exists>sel. selection st = Some sel \<and> req_target_range req = (sel_start sel, sel_end sel))"
    by (auto simp add: handleSuggestEdits_def split: option.splits if_splits)
  from one two three show ?thesis by blast
qed

text \<open>
  Claim C3 requires every stored selection, and hence every target range handed to a
  session, to lie within the content it is used against and to select exactly the stored
  text. The code breaks this after an undo (and likewise after restoring a version from
  the history dialog): \<^verbatim>\<open>handleUndo\<close> reverts and fetches the content again, but does not
  clear the stored selection, as the success callback of the apply mutation does. From
  \<open>Hello world\<close> the user selects \<open>world\<close>, which is stored as \<open>(6, 11, world)\<close>; the undo
  is confirmed and a revert is issued; the content arrives as \<open>Hi\<close>; the selection
  \<open>(6, 11, world)\<close> is still stored, is not valid for \<open>Hi\<close>, and the next suggestion
  request carries the range \<open>(6, 11)\<close>.
\<close>

theorem stale_selection_after_undo:
  "mouseUp handleMouseUp loaded_state (Some \<lparr>preText = Some ''Hello '', rangeText = ''world''\<rparr>) =
     stored loaded_state \<lparr>sel_start = 6, sel_end = 11, sel_text = ''world''\<rparr> \<and>
   valid_selection ''Hello world'' \<lparr>sel_start = 6, sel_end = 11, sel_text = ''world''\<rparr> \<and>
   handleUndo
       (manuscriptId (stored loaded_state \<lparr>sel_start = 6, sel_end = 11, sel_text = ''world''\<rparr>))
       (Some example_history) True = [(''m1'', ''v1'')] \<and>
   manuscriptContent
       (contentFetched (stored loaded_state \<lparr>sel_start = 6, sel_end = 11, sel_text = ''world''\<rparr>) ''Hi'') =
     Some ''Hi'' \<and>
   selection
       (contentFetched (stored loaded_state \<lparr>sel_start = 6, sel_end = 11, sel_text = ''world''\<rparr>) ''Hi'') =
     Some \<lparr>sel_start = 6, sel_end = 11, sel_text = ''world''\<rparr> \<and>
   \<not> valid_selection ''Hi'' \<lparr>sel_start = 6, sel_end = 11, sel_text = ''world''\<rparr> \<and>
   snd (handleSuggestEdits
          (contentFetched (stored loaded_state \<lparr>sel_start = 6, sel_end = 11, sel_text = ''world''\<rparr>) ''Hi'')
          ''Tighten'') =
     Some \<lparr>req_manuscript_id = ''m1'', req_instruction = ''Tighten'', req_target_range = (6, 11),
           req_k = 6, req_num_options = 3\<rparr>"
proof -
  let ?sel = "\<lparr>sel_start = 6, sel_end = 11, sel_text = ''world''\<rparr>"
  have m: "mouseUp handleMouseUp loaded_state
      (Some \<lparr>preText = Some ''Hello '', rangeText = ''world''\<rparr>) = stored loaded_state ?sel"
    by (simp add: mouseUp_def viewerRendered_def loaded_state_def contentFetched_def
        initial_state_def handleMouseUp_def handleTextSelection_def trim_def isWhiteSpace_def
        substring_def stored_def)
  have v: "valid_selection ''Hello world'' ?sel" by (simp add: valid_selection_def)
  have u: "handleUndo (manuscriptId (stored loaded_state ?sel)) (Some example_history) True =
      [(''m1'', ''v1'')]"
    by (simp add: handleUndo_def example_history_def stored_def loaded_state_def
        contentFetched_def initial_state_def)
  have c: "manuscriptContent (contentFetched (stored loaded_state ?sel) ''Hi'') = Some ''Hi''"
    and k: "selection (contentFetched (stored loaded_state ?sel) ''Hi'') = Some ?sel"
    by (simp_all add: contentFetched_def stored_def)
  have n: "\<not> valid_selection ''Hi'' ?sel" by (simp add: valid_selection_def)
  have r: "snd (handleSuggestEdits (contentFetched (stored loaded_state ?sel) ''Hi'') ''Tighten'') =
     Some \<lparr>req_manuscript_id = ''m1'', req_instruction = ''Tighten'', req_target_range = (6, 11),
           req_k = 6, req_num_options = 3\<rparr>"
    by (simp add: handleSuggestEdits_def contentFetched_def stored_def loaded_state_def
        initial_state_def)
  from m v u c k n r show ?thesis by (intro conjI)
qed

section \<open>Resolving a reported selection\<close>

lemma trim_ne_imp_ne: "trim txt \<noteq> [] \<Longrightarrow> txt \<noteq> []"
  by (auto simp add: trim_def)

lemma handleTextSelection_accepts:
  assumes "manuscriptContent st = Some content"
    and "0 \<le> start" "start < stop" "stop \<le> int (length content)"
    and "take (nat (stop - start)) (drop (nat start) content) = txt"
  shows "handleTextSelection st start stop txt =
           stored st \<lparr>sel_start = start, sel_end = stop, sel_text = txt\<rparr>"
proof -
  have sub: "substring content start stop = txt"
    using assms substring_in_range [of start stop content] by simp
  have "length txt = nat (stop - start)" using assms by auto
  then have "length txt > 0" using assms by simp
  moreover have "content \<noteq> []" using assms by auto
  ultimately show ?thesis
    using assms sub by (simp add: handleTextSelection_def stored_def)
qed

text \<open>
  Claim C4, as amended. In the revision of the viewer that computes an offset pair: when the
  reported text has a character that is not white space, the pair satisfies
  \<open>0 \<le> start < end \<le> length content\<close> and \<open>content[start:end]\<close> is the reported text, the
  viewer reports the triple unchanged and the editor stores it unchanged. (A selection of
  white space only is dropped by the guard \<^verbatim>\<open>selectedText.trim().length === 0\<close>.)
\<close>

theorem offset_pair_accepted:
  assumes "viewerRendered st" and "manuscriptContent st = Some content"
    and "int (length pre) = start"
    and "0 \<le> start" "start < stop" "stop \<le> int (length content)"
    and "take (nat (stop - start)) (drop (nat start) content) = txt"
    and "trim txt \<noteq> []"
  shows "handleMouseUp content (Some \<lparr>preText = Some pre, rangeText = txt\<rparr>) = Some (start, stop, txt) \<and>
         mouseUp handleMouseUp st (Some \<lparr>preText = Some pre, rangeText = txt\<rparr>) =
           stored st \<lparr>sel_start = start, sel_end = stop, sel_text = txt\<rparr>"
proof -
  have len: "int (length txt) = stop - start" using assms by auto
  have ne: "txt \<noteq> []" using assms trim_ne_imp_ne by blast
  have call: "handleMouseUp content (Some \<lparr>preText = Some pre, rangeText = txt\<rparr>) = Some (start, stop, txt)"
    using assms len ne by (simp add: handleMouseUp_unfold)
  have "handleTextSelection st start stop txt =
        stored st \<lparr>sel_start = start, sel_end = stop, sel_text = txt\<rparr>"
    using assms by (intro handleTextSelection_accepts) auto
  with call assms show ?thesis by (simp add: mouseUp_def)
qed

text \<open>The example of the specification: content \<open>Hello world\<close>, reported \<open>(0, 5, Hello)\<close>.\<close>

theorem offset_pair_accepted_witness:
  "viewerRendered (example_state ''Hello world'') \<and>
   manuscriptContent (example_state ''Hello world'') = Some ''Hello world'' \<and>
   trim ''Hello'' \<noteq> [] \<and>
   handleMouseUp ''Hello world'' (Some \<lparr>preText = Some [], rangeText = ''Hello''\<rparr>) = Some (0, 5, ''Hello'') \<and>
   mouseUp handleMouseUp (example_state ''Hello world'') (Some \<lparr>preText = Some [], rangeText = ''Hello''\<rparr>) =
     stored (example_state ''Hello world'') \<lparr>sel_start = 0, sel_end = 5, sel_text = ''Hello''\<rparr>"
proof -
  have r: "viewerRendered (example_state ''Hello world'')"
    and c: "manuscriptContent (example_state ''Hello world'') = Some ''Hello world''"
    by (simp_all add: viewerRendered_def example_state_def)
  have t: "trim ''Hello'' \<noteq> []" by (simp add: trim_def isWhiteSpace_def)
  have s: "take (nat (5 - 0)) (drop (nat 0) ''Hello world'') = ''Hello''" by simp
  from offset_pair_accepted [OF r c _ _ _ _ s t, of "[]"] r c t show ?thesis by simp
qed

text \<open>
  Claim C4 as stated fails: in \<open>a b\<close> the pair \<open>(1, 2)\<close> with the text of one space is
  valid, and the viewer reports nothing, so nothing is stored.
\<close>

theorem offset_pair_whitespace_counterexample:
  "valid_selection ''a b'' \<lparr>sel_start = 1, sel_end = 2, sel_text = '' ''\<rparr> \<and>
   handleMouseUp ''a b'' (Some \<lparr>preText = Some ''a'', rangeText = '' ''\<rparr>) = None \<and>
   mouseUp handleMouseUp (example_state ''a b'') (Some \<lparr>preText = Some ''a'', rangeText = '' ''\<rparr>) =
     example_state ''a b''"
  by (simp add: valid_selection_def handleMouseUp_def mouseUp_def viewerRendered_def
      example_state_def trim_def isWhiteSpace_def)

lemma indexOf_first_occurrence:
  assumes "occurs_at s t j"
  shows "indexOf s t \<noteq> - 1 \<and> 0 \<le> indexOf s t \<and> first_occurrence s t (nat (indexOf s t))"
proof -
  from assms have i: "indexOf s t \<noteq> - 1" using indexOf_least by blast
  then have o: "occurs_at s t (nat (indexOf s t))" by (rule indexOf_occurs)
  have "\<not> occurs_at s t k" if "k < nat (indexOf s t)" for k
    using that indexOf_least [of s t k] by auto
  with i o indexOf_range [of s t] show ?thesis by (auto simp add: first_occurrence_def)
qed

lemma fallback_stored:
  assumes "viewerRendered st" "manuscriptContent st = Some content"
    and "u \<noteq> []" and "occurs_at content u j"
    and "handler content rng = Some (indexOf content u, indexOf content u + int (length u), u)"
  shows "mouseUp handler st rng =
           stored st \<lparr>sel_start = indexOf content u, sel_end = indexOf content u + int (length u),
                      sel_text = u\<rparr>"
proof -
  let ?i = "indexOf content u"
  from assms indexOf_first_occurrence [of content u j]
  have i: "0 \<le> ?i" and o: "occurs_at content u (nat ?i)"
    by (simp_all add: first_occurrence_def)
  have "handleTextSelection st ?i (?i + int (length u)) u =
          stored st \<lparr>sel_start = ?i, sel_end = ?i + int (length u), sel_text = u\<rparr>"
    using assms i o by (intro handleTextSelection_accepts) (auto simp add: occurs_at_def)
  with assms show ?thesis by (simp add: mouseUp_def)
qed

text \<open>
  Claim C5, as amended. Let the reported text have a character that is not white space and
  its trimmed form occur in the content. Then there is a smallest index \<open>i\<close> at which it
  occurs and: in the revision with an offset pair, when the pair is absent (building it
  raised) or out of bounds (\<open>start + length text > length content\<close>), the viewer reports
  and the editor stores \<open>(i, i + length trimmed, trimmed)\<close>; in the revision without an
  offset pair this happens for every selection. (A pair that is within bounds but whose
  text differs from the content is not searched for: the editor ignores it.)
\<close>

theorem fallback_first_occurrence:
  assumes "viewerRendered st" and "manuscriptContent st = Some content"
    and "trim txt \<noteq> []" and "occurs_at content (trim txt) j"
  shows "\<exists>i. first_occurrence content (trim txt) i \<and>
      ((pre = None \<or> (\<exists>p. pre = Some p \<and> int (length content) < int (length p) + int (length txt))) \<longrightarrow>
         handleMouseUp content (Some \<lparr>preText = pre, rangeText = txt\<rparr>) =
           Some (int i, int i + int (length (trim txt)), trim txt) \<and>
         mouseUp handleMouseUp st (Some \<lparr>preText = pre, rangeText = txt\<rparr>) =
           stored st \<lparr>sel_start = int i, sel_end = int i + int (length (trim txt)), sel_text = trim txt\<rparr>) \<and>
      handleMouseUp_indexOf content (Some \<lparr>preText = pre, rangeText = txt\<rparr>) =
        Some (int i, int i + int (length (trim txt)), trim txt) \<and>
      mouseUp handleMouseUp_indexOf st (Some \<lparr>preText = pre, rangeText = txt\<rparr>) =
        stored st \<lparr>sel_start = int i, sel_end = int i + int (length (trim txt)), sel_text = trim txt\<rparr>"
proof -
  let ?u = "trim txt"
  let ?i = "indexOf content ?u"
  let ?rng = "Some \<lparr>preText = pre, rangeText = txt\<rparr>"
  from assms indexOf_first_occurrence [of content ?u j]
  have i: "?i \<noteq> - 1" "0 \<le> ?i" and f: "first_occurrence content ?u (nat ?i)" by simp_all
  have int_i: "int (nat ?i) = ?i" using i by simp
  have two: "handleMouseUp_indexOf content ?rng = Some (?i, ?i + int (length ?u), ?u)"
    using assms i by (simp add: handleMouseUp_indexOf_def Let_def)
  have two': "mouseUp handleMouseUp_indexOf st ?rng =
      stored st \<lparr>sel_start = ?i, sel_end = ?i + int (length ?u), sel_text = ?u\<rparr>"
    using assms two by (intro fallback_stored) auto
  have one: "handleMouseUp content ?rng = Some (?i, ?i + int (length ?u), ?u)"
    if "pre = None \<or> (\<exists>p. pre = Some p \<and> int (length content) < int (length p) + int (length txt))"
    using that assms i by (auto simp add: handleMouseUp_unfold)
  have one': "mouseUp handleMouseUp st ?rng =
      stored st \<lparr>sel_start = ?i, sel_end = ?i + int (length ?u), sel_text = ?u\<rparr>"
    if "pre = None \<or> (\<exists>p. pre = Some p \<and> int (length content) < int (length p) + int (length txt))"
    using assms one [OF that] by (intro fallback_stored) auto
  from i obtain n where n: "?i = int n" using nonneg_int_cases by blast
  with f have f': "first_occurrence content ?u n" by simp
  show ?thesis
    using f' one one' two two' unfolding n by (intro exI [of _ n]) simp
qed

lemma first_occurrence_unique:
  "first_occurrence s t i \<Longrightarrow> first_occurrence s t k \<Longrightarrow> i = k"
  by (metis first_occurrence_def linorder_neqE_nat)

theorem fallback_first_occurrence_witness:
  "viewerRendered (example_state ''Hello world'') \<and>
   manuscriptContent (example_state ''Hello world'') = Some ''Hello world'' \<and>
   trim '' world '' = ''world'' \<and> occurs_at ''Hello world'' ''world'' 6 \<and>
   first_occurrence ''Hello world'' ''world'' 6 \<and>
   mouseUp handleMouseUp (example_state ''Hello world'')
       (Some \<lparr>preText = Some ''Hello world'', rangeText = '' world ''\<rparr>) =
     stored (example_state ''Hello world'') \<lparr>sel_start = 6, sel_end = 11, sel_text = ''world''\<rparr>"
proof -
  let ?st = "example_state ''Hello world''"
  have r: "viewerRendered ?st" and c: "manuscriptContent ?st = Some ''Hello world''"
    by (simp_all add: viewerRendered_def example_state_def)
  have t: "trim '' world '' = ''world''" by (simp add: trim_def isWhiteSpace_def)
  have o: "occurs_at ''Hello world'' ''world'' 6" by (simp add: occurs_at_def)
  have f: "first_occurrence ''Hello world'' ''world'' 6"
    by (simp add: first_occurrence_def occurs_at_def less_Suc_eq eval_nat_numeral)
  have ne: "trim '' world '' \<noteq> []" using t by simp
  have o': "occurs_at ''Hello world'' (trim '' world '') 6" using o t by simp
  from fallback_first_occurrence [OF r c ne o', of "Some ''Hello world''"]
  obtain i where i: "first_occurrence ''Hello world'' ''world'' i"
    and m: "mouseUp handleMouseUp ?st (Some \<lparr>preText = Some ''Hello world'', rangeText = '' world ''\<rparr>) =
      stored ?st \<lparr>sel_start = int i, sel_end = int i + 5, sel_text = ''world''\<rparr>"
    using t by auto
  from i f have "i = 6" by (rule first_occurrence_unique)
  with m r c t o f show ?thesis by simp
qed

text \<open>
  Claim C5 as stated fails: for \<open>Hello world\<close> and the reported start 0 with text
  \<open>world\<close>, the pair \<open>(0, 5)\<close> is within bounds but does not match, the text occurs first
  at index 6, and the editor state is left as it was instead of storing \<open>(6, 11, world)\<close>.
\<close>

theorem fallback_mismatch_counterexample:
  "handleMouseUp ''Hello world'' (Some \<lparr>preText = Some [], rangeText = ''world''\<rparr>) = Some (0, 5, ''world'') \<and>
   \<not> valid_selection ''Hello world'' \<lparr>sel_start = 0, sel_end = 5, sel_text = ''world''\<rparr> \<and>
   first_occurrence ''Hello world'' (trim ''world'') 6 \<and>
   mouseUp handleMouseUp (example_state ''Hello world'') (Some \<lparr>preText = Some [], rangeText = ''world''\<rparr>) =
     example_state ''Hello world'' \<and>
   example_state ''Hello world'' \<noteq>
     stored (example_state ''Hello world'') \<lparr>sel_start = 6, sel_end = 11, sel_text = ''world''\<rparr>"
  by (simp add: valid_selection_def handleMouseUp_def mouseUp_def viewerRendered_def
      example_state_def trim_def isWhiteSpace_def handleTextSelection_def substring_def
      first_occurrence_def occurs_at_def stored_def less_Suc_eq eval_nat_numeral)

text \<open>
  Claim C6, as amended. When the reported offset pair (if there is one) does not validate
  against the content and the trimmed text occurs nowhere in the content, the mouse-up
  leaves the editor state exactly as it was: no selection is stored, the previous
  selection, session and options stay, and no error is raised (the handlers have no
  failure result). This holds for both revisions of the viewer.
\<close>

theorem unresolved_selection_ignored:
  assumes "manuscriptContent st = Some content"
    and "\<forall>p. pre = Some p \<longrightarrow>
           \<not> valid_selection content
               \<lparr>sel_start = int (length p), sel_end = int (length p) + int (length txt), sel_text = txt\<rparr>"
    and "\<forall>j. \<not> occurs_at content (trim txt) j"
  shows "mouseUp handleMouseUp st (Some \<lparr>preText = pre, rangeText = txt\<rparr>) = st \<and>
         mouseUp handleMouseUp_indexOf st (Some \<lparr>preText = pre, rangeText = txt\<rparr>) = st"
proof -
  let ?u = "trim txt"
  let ?rng = "Some \<lparr>preText = pre, rangeText = txt\<rparr>"
  have absent: "indexOf content ?u = - 1" using assms indexOf_absent by blast
  have two: "handleMouseUp_indexOf content ?rng = None"
    using absent by (simp add: handleMouseUp_indexOf_def Let_def)
  have one: "mouseUp handleMouseUp st ?rng = st"
  proof (cases "handleMouseUp content ?rng")
    case None
    with assms show ?thesis by (simp add: mouseUp_def)
  next
    case (Some call)
    then obtain p where p: "pre = Some p"
      and call: "call = (int (length p), int (length p) + int (length txt), txt)"
      using absent by (auto simp add: handleMouseUp_unfold split: if_splits)
    let ?s = "int (length p)"
    let ?e = "int (length p) + int (length txt)"
    have cases: "handleTextSelection st ?s ?e txt = st \<or>
      (\<exists>c. manuscriptContent st = Some c \<and> 0 \<le> ?s \<and> ?s < ?e \<and> substring c ?s ?e = txt \<and>
        handleTextSelection st ?s ?e txt = stored st \<lparr>sel_start = ?s, sel_end = ?e, sel_text = txt\<rparr>)"
      by (rule handleTextSelection_cases)
    from cases have "handleTextSelection st ?s ?e txt = st"
    proof
      assume "handleTextSelection st ?s ?e txt = st"
      then show ?thesis .
    next
      assume "\<exists>c. manuscriptContent st = Some c \<and> 0 \<le> ?s \<and> ?s < ?e \<and> substring c ?s ?e = txt \<and>
        handleTextSelection st ?s ?e txt = stored st \<lparr>sel_start = ?s, sel_end = ?e, sel_text = txt\<rparr>"
      with assms have "0 \<le> ?s" "?s < ?e" "substring content ?s ?e = txt" by auto
      then have "valid_selection content \<lparr>sel_start = ?s, sel_end = ?e, sel_text = txt\<rparr>"
        by (intro reported_selection_valid) auto
      with assms p show ?thesis by blast
    qed
    with Some call assms show ?thesis by (simp add: mouseUp_def)
  qed
  from two assms have "mouseUp handleMouseUp_indexOf st ?rng = st" by (simp add: mouseUp_def)
  with one show ?thesis by simp
qed

theorem unresolved_selection_ignored_witness:
  "manuscriptContent (example_state ''Hello world'') = Some ''Hello world'' \<and>
   \<not> valid_selection ''Hello world'' \<lparr>sel_start = 0, sel_end = 5, sel_text = ''Howdy''\<rparr> \<and>
   (\<forall>j. \<not> occurs_at ''Hello world'' (trim ''Howdy'') j) \<and>
   mouseUp handleMouseUp (example_state ''Hello world'') (Some \<lparr>preText = Some [], rangeText = ''Howdy''\<rparr>) =
     example_state ''Hello world'' \<and>
   mouseUp handleMouseUp_indexOf (example_state ''Hello world'') (Some \<lparr>preText = Some [], rangeText = ''Howdy''\<rparr>) =
     example_state ''Hello world''"
proof -
  let ?st = "example_state ''Hello world''"
  have c: "manuscriptContent ?st = Some ''Hello world''" by (simp add: example_state_def)
  have v: "\<not> valid_selection ''Hello world'' \<lparr>sel_start = 0, sel_end = 5, sel_text = ''Howdy''\<rparr>"
    by (simp add: valid_selection_def)
  have "indexOf ''Hello world'' (trim ''Howdy'') = - 1" by (simp add: trim_def isWhiteSpace_def)
  then have a: "\<forall>j. \<not> occurs_at ''Hello world'' (trim ''Howdy'') j" using indexOf_absent by blast
  have v': "\<forall>p. Some [] = Some p \<longrightarrow> \<not> valid_selection ''Hello world''
      \<lparr>sel_start = int (length p), sel_end = int (length p) + int (length ''Howdy''), sel_text = ''Howdy''\<rparr>"
    using v by simp
  from unresolved_selection_ignored [OF c v' a] c v a show ?thesis by simp
qed

text \<open>
  Claim C6 as stated fails: for \<open>Hello world\<close> and the stale pair \<open>(0, 5, Howdy)\<close>, whose
  text is absent from the content, the viewer reports the triple, the editor ignores it,
  and the outcome is the unchanged state rather than a failure.
\<close>

theorem unresolved_selection_counterexample:
  "handleMouseUp ''Hello world'' (Some \<lparr>preText = Some [], rangeText = ''Howdy''\<rparr>) = Some (0, 5, ''Howdy'') \<and>
   indexOf ''Hello world'' (trim ''Howdy'') = - 1 \<and>
   handleTextSelection (example_state ''Hello world'') 0 5 ''Howdy'' = example_state ''Hello world'' \<and>
   mouseUp handleMouseUp (example_state ''Hello world'') (Some \<lparr>preText = Some [], rangeText = ''Howdy''\<rparr>) =
     example_state ''Hello world''"
  by (simp add: handleMouseUp_def mouseUp_def viewerRendered_def example_state_def trim_def
      isWhiteSpace_def handleTextSelection_def substring_def)

section \<open>One live session\<close>

lemma handleApplyEdit_session:
  "handleApplyEdit st oid = Some req \<Longrightarrow>
     editSessionId st = Some (req_edit_session_id req) \<and> req_option_id req = oid"
  by (auto simp add: handleApplyEdit_def split: option.splits if_splits)

lemma reachable_holds_latest:
  "reachable st r \<Longrightarrow>
     editSessionId st = map_option edit_session_id r \<and>
     editOptions st = (case r of None \<Rightarrow> [] | Some data \<Rightarrow> options data)"
proof (induction rule: reachable.induct)
  case (r_init m)
  then show ?case by (simp add: initial_state_def)
next
  case (r_content st r c)
  then show ?case by (simp add: contentFetched_def)
next
  case (r_mouseUp st r rng)
  from mouseUp_cases [of handleMouseUp rng st] handleMouseUp_reports
  have "mouseUp handleMouseUp st rng = st \<or> (\<exists>sel. mouseUp handleMouseUp st rng = stored st sel)"
    by meson
  with r_mouseUp show ?case by (auto simp add: stored_def)
next
  case (r_mouseUp_indexOf st r rng)
  from mouseUp_cases [of handleMouseUp_indexOf rng st] handleMouseUp_indexOf_reports
  have "mouseUp handleMouseUp_indexOf st rng = st \<or>
        (\<exists>sel. mouseUp handleMouseUp_indexOf st rng = stored st sel)"
    by meson
  with r_mouseUp_indexOf show ?case by (auto simp add: stored_def)
next
  case (r_suggest st r instruction)
  then show ?case by (simp add: handleSuggestEdits_def split: option.splits)
next
  case (r_suggest_ok st r data)
  then show ?case by (simp add: suggestEdits_onSuccess_def)
next
  case (r_suggest_err st r)
  then show ?case by (simp add: suggestEdits_onError_def)
next
  case (r_apply_ok st r)
  then show ?case by (simp add: applyEdit_onSuccess_def)
next
  case (r_apply_err st r)
  then show ?case by (simp add: applyEdit_onError_def)
qed

text \<open>
  What the handlers do to the one session cell and the one option list of the editor. Every
  apply request names the session held in the state; when a selection is accepted the
  session id is cleared, the options are emptied and no apply request can be issued; when
  a suggestion response arrives its session id and options replace the previous ones; a
  successful apply clears the session and its options; and in every reachable state the
  session and the options are those of the latest suggestion response that arrived, and
  are none once a selection was accepted or an apply succeeded after its arrival.
\<close>

lemma single_live_session:
  "(handleApplyEdit st oid = Some req \<longrightarrow> editSessionId st = Some (req_edit_session_id req)) \<and>
   (handleTextSelection st s e t = st \<or>
      (editSessionId (handleTextSelection st s e t) = None \<and>
       editOptions (handleTextSelection st s e t) = [] \<and>
       handleApplyEdit (handleTextSelection st s e t) oid = None)) \<and>
   (editSessionId (suggestEdits_onSuccess st data) = Some (edit_session_id data) \<and>
    editOptions (suggestEdits_onSuccess st data) = options data \<and>
    (handleApplyEdit (suggestEdits_onSuccess st data) oid = Some req \<longrightarrow>
       req_edit_session_id req = edit_session_id data)) \<and>
   (editSessionId (applyEdit_onSuccess st) = None \<and>
    editOptions (applyEdit_onSuccess st) = [] \<and>
    handleApplyEdit (applyEdit_onSuccess st) oid = None) \<and>
   (reachable st r \<longrightarrow>
      editSessionId st = map_option edit_session_id r \<and>
      editOptions st = (case r of None \<Rightarrow> [] | Some d \<Rightarrow> options d) \<and>
      (handleApplyEdit st oid = Some req \<longrightarrow>
         (\<exists>d. r = Some d \<and> req_edit_session_id req = edit_session_id d)))"
proof -
  have a: "handleApplyEdit st oid = Some req \<longrightarrow> editSessionId st = Some (req_edit_session_id req)"
    using handleApplyEdit_session by blast
  have b: "handleTextSelection st s e t = st \<or>
      (editSessionId (handleTextSelection st s e t) = None \<and>
       editOptions (handleTextSelection st s e t) = [] \<and>
       handleApplyEdit (handleTextSelection st s e t) oid = None)"
    using handleTextSelection_cases [of st s e t]
    by (auto simp add: stored_def handleApplyEdit_def)
  have c: "editSessionId (suggestEdits_onSuccess st data) = Some (edit_session_id data) \<and>
    editOptions (suggestEdits_onSuccess st data) = options data \<and>
    (handleApplyEdit (suggestEdits_onSuccess st data) oid = Some req \<longrightarrow>
       req_edit_session_id req = edit_session_id data)"
    by (auto simp add: suggestEdits_onSuccess_def handleApplyEdit_def split: if_splits)
  have d: "editSessionId (applyEdit_onSuccess st) = None \<and>
    editOptions (applyEdit_onSuccess st) = [] \<and>
    handleApplyEdit (applyEdit_onSuccess st) oid = None"
    by (simp add: applyEdit_onSuccess_def handleApplyEdit_def)
  have e: "reachable st r \<longrightarrow>
      editSessionId st = map_option edit_session_id r \<and>
      editOptions st = (case r of None \<Rightarrow> [] | Some d \<Rightarrow> options d) \<and>
      (handleApplyEdit st oid = Some req \<longrightarrow>
         (\<exists>d. r = Some d \<and> req_edit_session_id req = edit_session_id d))"
  proof
    assume "reachable st r"
    then have h: "editSessionId st = map_option edit_session_id r"
      and o: "editOptions st = (case r of None \<Rightarrow> [] | Some d \<Rightarrow> options d)"
      using reachable_holds_latest by blast+
    have "\<exists>d. r = Some d \<and> req_edit_session_id req = edit_session_id d"
      if "handleApplyEdit st oid = Some req"
      using handleApplyEdit_session [OF that] h by (cases r) auto
    with h o show "editSessionId st = map_option edit_session_id r \<and>
      editOptions st = (case r of None \<Rightarrow> [] | Some d \<Rightarrow> options d) \<and>
      (handleApplyEdit st oid = Some req \<longrightarrow>
         (\<exists>d. r = Some d \<and> req_edit_session_id req = edit_session_id d))"
      by blast
  qed
  from a b c d e show ?thesis by blast
qed



text \<open>
  Claim C9 requires that accepting a new selection discards the session in progress, so
  that its options can never be applied afterwards. \<^verbatim>\<open>handleTextSelection\<close> clears the
  session the editor holds (its comment: \<^verbatim>\<open>Clear previous edit session\<close>), but misses the one whose
  suggestion request is still pending: nothing cancels the request, and the success
  callback installs whatever response arrives. The user selects \<open>Hello\<close> and asks for
  suggestions, so a request for the range \<open>(0, 5)\<close> is sent; before the response arrives
  the user selects \<open>world\<close>, which is accepted as \<open>(6, 11, world)\<close>; then the response for
  the first request arrives. The editor now shows the selection \<open>world\<close>, holds the session
  \<open>s2\<close> of the superseded request with its option for \<open>Hello\<close>, and issues an apply request
  for that session.
\<close>

theorem stale_response_after_selection:
  "mouseUp handleMouseUp loaded_state (Some \<lparr>preText = Some [], rangeText = ''Hello''\<rparr>) =
     stored loaded_state \<lparr>sel_start = 0, sel_end = 5, sel_text = ''Hello''\<rparr> \<and>
   snd (handleSuggestEdits
          (stored loaded_state \<lparr>sel_start = 0, sel_end = 5, sel_text = ''Hello''\<rparr>) ''Tighten'') =
     Some \<lparr>req_manuscript_id = ''m1'', req_instruction = ''Tighten'', req_target_range = (0, 5),
           req_k = 6, req_num_options = 3\<rparr> \<and>
   mouseUp handleMouseUp
       (fst (handleSuggestEdits
          (stored loaded_state \<lparr>sel_start = 0, sel_end = 5, sel_text = ''Hello''\<rparr>) ''Tighten''))
       (Some \<lparr>preText = Some ''Hello '', rangeText = ''world''\<rparr>) =
     stored
       (fst (handleSuggestEdits
          (stored loaded_state \<lparr>sel_start = 0, sel_end = 5, sel_text = ''Hello''\<rparr>) ''Tighten''))
       \<lparr>sel_start = 6, sel_end = 11, sel_text = ''world''\<rparr> \<and>
   selection (suggestEdits_onSuccess
       (stored
          (fst (handleSuggestEdits
             (stored loaded_state \<lparr>sel_start = 0, sel_end = 5, sel_text = ''Hello''\<rparr>) ''Tighten''))
          \<lparr>sel_start = 6, sel_end = 11, sel_text = ''world''\<rparr>)
       example_response) = Some \<lparr>sel_start = 6, sel_end = 11, sel_text = ''world''\<rparr> \<and>
   editSessionId (suggestEdits_onSuccess
       (stored
          (fst (handleSuggestEdits
             (stored loaded_state \<lparr>sel_start = 0, sel_end = 5, sel_text = ''Hello''\<rparr>) ''Tighten''))
          \<lparr>sel_start = 6, sel_end = 11, sel_text = ''world''\<rparr>)
       example_response) = Some ''s2'' \<and>
   map before (editOptions (suggestEdits_onSuccess
       (stored
          (fst (handleSuggestEdits
             (stored loaded_state \<lparr>sel_start = 0, sel_end = 5, sel_text = ''Hello''\<rparr>) ''Tighten''))
          \<lparr>sel_start = 6, sel_end = 11, sel_text = ''world''\<rparr>)
       example_response)) = [''Hello''] \<and>
   handleApplyEdit (suggestEdits_onSuccess
       (stored
          (fst (handleSuggestEdits
             (stored loaded_state \<lparr>sel_start = 0, sel_end = 5, sel_text = ''Hello''\<rparr>) ''Tighten''))
          \<lparr>sel_start = 6, sel_end = 11, sel_text = ''world''\<rparr>)
       example_response) ''o2'' =
     Some \<lparr>req_edit_session_id = ''s2'', req_option_id = ''o2''\<rparr>"
proof -
  let ?hello = "\<lparr>sel_start = 0, sel_end = 5, sel_text = ''Hello''\<rparr>"
  let ?world = "\<lparr>sel_start = 6, sel_end = 11, sel_text = ''world''\<rparr>"
  let ?pending = "fst (handleSuggestEdits (stored loaded_state ?hello) ''Tighten'')"
  let ?final = "suggestEdits_onSuccess (stored ?pending ?world) example_response"
  have p: "?pending = (stored loaded_state ?hello)\<lparr>isLoading := True\<rparr>"
    by (simp add: handleSuggestEdits_def stored_def loaded_state_def contentFetched_def
        initial_state_def)
  have one: "mouseUp handleMouseUp loaded_state (Some \<lparr>preText = Some [], rangeText = ''Hello''\<rparr>) =
      stored loaded_state ?hello"
    by (simp add: mouseUp_def viewerRendered_def loaded_state_def contentFetched_def
        initial_state_def handleMouseUp_def handleTextSelection_def trim_def isWhiteSpace_def
        substring_def stored_def)
  have two: "snd (handleSuggestEdits (stored loaded_state ?hello) ''Tighten'') =
     Some \<lparr>req_manuscript_id = ''m1'', req_instruction = ''Tighten'', req_target_range = (0, 5),
           req_k = 6, req_num_options = 3\<rparr>"
    by (simp add: handleSuggestEdits_def stored_def loaded_state_def contentFetched_def
        initial_state_def)
  have three: "mouseUp handleMouseUp ?pending
      (Some \<lparr>preText = Some ''Hello '', rangeText = ''world''\<rparr>) = stored ?pending ?world"
    unfolding p
    by (simp add: mouseUp_def viewerRendered_def loaded_state_def contentFetched_def
        initial_state_def handleMouseUp_def handleTextSelection_def trim_def isWhiteSpace_def
        substring_def stored_def)
  have four: "selection ?final = Some ?world"
    and five: "editSessionId ?final = Some ''s2''"
    and six: "map before (editOptions ?final) = [''Hello'']"
    by (simp_all add: suggestEdits_onSuccess_def stored_def example_response_def)
  have seven: "handleApplyEdit ?final ''o2'' =
      Some \<lparr>req_edit_session_id = ''s2'', req_option_id = ''o2''\<rparr>"
    by (simp add: handleApplyEdit_def suggestEdits_onSuccess_def example_response_def)
  from one two three four five six seven show ?thesis by (intro conjI)
qed

section \<open>Undo\<close>

text \<open>
  Claim C10, as amended. If the history has no version list or fewer than two entries, undo
  issues no revert. If it has at least two entries, undo issues exactly one revert, to the
  second entry of the newest-first list, when the user confirms the dialog, and none when
  the user declines.
\<close>

theorem undo_targets_previous_version:
  "((versions history = None \<or> (\<exists>vs. versions history = Some vs \<and> length vs < 2)) \<longrightarrow>
      handleUndo mid (Some history) confirmed = []) \<and>
   (mid = Some m \<and> m \<noteq> [] \<and> versions history = Some vs \<and> 2 \<le> length vs \<longrightarrow>
      handleUndo mid (Some history) confirmed =
        (if confirmed then [(m, version_id (vs ! 1))] else []))"
  by (auto simp add: handleUndo_def Let_def split: option.splits)



theorem undo_targets_previous_version_witness:
  "versions example_history \<noteq> None \<and> 2 \<le> length (the (versions example_history)) \<and>
   handleUndo (Some ''m1'') (Some example_history) True = [(''m1'', ''v1'')] \<and>
   handleUndo (Some ''m1'') (Some \<lparr>versions = Some []\<rparr>) True = []"
proof -
  let ?vs = "the (versions example_history)"
  have h: "versions example_history = Some ?vs" and l: "2 \<le> length ?vs"
    and v: "version_id (?vs ! 1) = ''v1''"
    by (simp_all add: example_history_def)
  have m: "Some ''m1'' = Some ''m1'' \<and> ''m1'' \<noteq> [] \<and> versions example_history = Some ?vs \<and>
      2 \<le> length ?vs"
    using h l by simp
  have e: "versions \<lparr>versions = Some []\<rparr> = None \<or>
      (\<exists>vs. versions \<lparr>versions = Some []\<rparr> = Some vs \<and> length vs < 2)"
    by simp
  from undo_targets_previous_version [of example_history "Some ''m1''" True "''m1''" ?vs] m v
  have one: "handleUndo (Some ''m1'') (Some example_history) True = [(''m1'', ''v1'')]" by simp
  from undo_targets_previous_version [of "\<lparr>versions = Some []\<rparr>" "Some ''m1''" True] e
  have two: "handleUndo (Some ''m1'') (Some \<lparr>versions = Some []\<rparr>) True = []" by blast
  from h have "versions example_history \<noteq> None" by (metis option.distinct(1))
  with l one two show ?thesis by blast
qed

text \<open>
  Claim C10 as stated fails: with a history of two entries and the confirmation declined,
  no revert is issued.
\<close>

theorem undo_declined_counterexample:
  "versions example_history \<noteq> None \<and> length (the (versions example_history)) = 2 \<and>
   handleUndo (Some ''m1'') (Some example_history) False = []"
  by (simp add: example_history_def handleUndo_def)

section \<open>The diff shown for an option\<close>

lemma spec_tokenize_lossless: "concat (spec_tokenize s) = s"
  by (induction s) (auto split: list.splits)


text \<open>
  Claim C7, as amended. \<^verbatim>\<open>computeSimpleDiff\<close> neither tokenizes nor aligns its inputs. When
  the two texts differ, it gives the whole of \<open>before\<close> as removed and the whole of \<open>after\<close>
  as added, so that every word token of both texts counts as deleted or inserted; when they
  are equal, it gives nothing as removed and the text itself as added.
\<close>

theorem computeSimpleDiff_whole_texts:
  "(b \<noteq> a \<longrightarrow>
      computeSimpleDiff b a = \<lparr>removed = b, added = a\<rparr> \<and>
      spec_edit_cost (simple_diff_hunks (computeSimpleDiff b a)) =
        length (spec_tokenize b) + length (spec_tokenize a)) \<and>
   (b = a \<longrightarrow> computeSimpleDiff b a = \<lparr>removed = [], added = b\<rparr>)"
  by (simp add: computeSimpleDiff_def simple_diff_hunks_def spec_edit_cost_def)

theorem computeSimpleDiff_whole_texts_witness:
  "''a b'' \<noteq> ''a c'' \<and>
   computeSimpleDiff ''a b'' ''a c'' = \<lparr>removed = ''a b'', added = ''a c''\<rparr> \<and>
   spec_edit_cost (simple_diff_hunks (computeSimpleDiff ''a b'' ''a c'')) = 6 \<and>
   computeSimpleDiff ''a b'' ''a b'' = \<lparr>removed = [], added = ''a b''\<rparr>"
proof -
  have ne: "''a b'' \<noteq> ''a c''" by simp
  have len: "length (spec_tokenize ''a b'') + length (spec_tokenize ''a c'') = 6"
    by (simp add: isWhiteSpace_def)
  from computeSimpleDiff_whole_texts [of "''a b''" "''a c''"] ne
  have d: "computeSimpleDiff ''a b'' ''a c'' = \<lparr>removed = ''a b'', added = ''a c''\<rparr>"
    and c: "spec_edit_cost (simple_diff_hunks (computeSimpleDiff ''a b'' ''a c'')) =
      length (spec_tokenize ''a b'') + length (spec_tokenize ''a c'')"
    by blast+
  from computeSimpleDiff_whole_texts [of "''a b''" "''a b''"]
  have e: "computeSimpleDiff ''a b'' ''a b'' = \<lparr>removed = [], added = ''a b''\<rparr>" by blast
  from ne d c len e show ?thesis by presburger
qed

text \<open>
  Claim C7 as stated fails: for \<open>a b\<close> and \<open>a c\<close>, each of three word tokens, the result
  deletes and inserts all six tokens, while the hunks equal \<open>a \<close>, delete \<open>b\<close>, insert \<open>c\<close>
  reconstruct both texts with two.
\<close>

theorem computeSimpleDiff_not_minimal_counterexample:
  "simple_diff_hunks (computeSimpleDiff ''a b'' ''a c'') =
     [\<lparr>hunk_op = OpDelete, hunk_text = ''a b''\<rparr>, \<lparr>hunk_op = OpInsert, hunk_text = ''a c''\<rparr>] \<and>
   spec_tokenize ''a b'' = [''a'', '' '', ''b''] \<and>
   spec_tokenize ''a c'' = [''a'', '' '', ''c''] \<and>
   spec_edit_cost (simple_diff_hunks (computeSimpleDiff ''a b'' ''a c'')) = 6 \<and>
   spec_reconstruct_before
     [\<lparr>hunk_op = OpEqual, hunk_text = ''a ''\<rparr>, \<lparr>hunk_op = OpDelete, hunk_text = ''b''\<rparr>,
      \<lparr>hunk_op = OpInsert, hunk_text = ''c''\<rparr>] = ''a b'' \<and>
   spec_reconstruct_after
     [\<lparr>hunk_op = OpEqual, hunk_text = ''a ''\<rparr>, \<lparr>hunk_op = OpDelete, hunk_text = ''b''\<rparr>,
      \<lparr>hunk_op = OpInsert, hunk_text = ''c''\<rparr>] = ''a c'' \<and>
   spec_edit_cost
     [\<lparr>hunk_op = OpEqual, hunk_text = ''a ''\<rparr>, \<lparr>hunk_op = OpDelete, hunk_text = ''b''\<rparr>,
      \<lparr>hunk_op = OpInsert, hunk_text = ''c''\<rparr>] = 2"
  by (simp add: computeSimpleDiff_def simple_diff_hunks_def spec_edit_cost_def
      spec_reconstruct_before_def spec_reconstruct_after_def isWhiteSpace_def)

text \<open>
  Claim C8, as amended. For every pair of texts, the added text of the diff (the equal and
  insert part) is \<open>after\<close>; and whenever the texts differ (\<^verbatim>\<open>hasChanges\<close>), the removed text
  (the equal and delete part) is \<open>before\<close>. When the texts are equal the removed text is
  empty, whatever \<open>before\<close> is.
\<close>

theorem computeSimpleDiff_reconstructs:
  "added (computeSimpleDiff b a) = a \<and>
   spec_reconstruct_after (simple_diff_hunks (computeSimpleDiff b a)) = a \<and>
   (hasChanges b a \<longrightarrow>
      removed (computeSimpleDiff b a) = b \<and>
      spec_reconstruct_before (simple_diff_hunks (computeSimpleDiff b a)) = b) \<and>
   (\<not> hasChanges b a \<longrightarrow> removed (computeSimpleDiff b a) = [])"
  by (simp add: computeSimpleDiff_def simple_diff_hunks_def spec_reconstruct_after_def
      spec_reconstruct_before_def hasChanges_def)

theorem computeSimpleDiff_reconstructs_witness:
  "hasChanges ''cat'' ''feline'' \<and> \<not> hasChanges ''cat'' ''cat'' \<and>
   added (computeSimpleDiff ''cat'' ''feline'') = ''feline'' \<and>
   removed (computeSimpleDiff ''cat'' ''feline'') = ''cat'' \<and>
   spec_reconstruct_after (simple_diff_hunks (computeSimpleDiff ''cat'' ''feline'')) = ''feline'' \<and>
   spec_reconstruct_before (simple_diff_hunks (computeSimpleDiff ''cat'' ''feline'')) = ''cat'' \<and>
   removed (computeSimpleDiff ''cat'' ''cat'') = []"
  using computeSimpleDiff_reconstructs [of "''cat''" "''feline''"]
    computeSimpleDiff_reconstructs [of "''cat''" "''cat''"]
  by (simp add: hasChanges_def)

text \<open>
  Claim C8 as stated fails: the diff of \<open>x\<close> with itself has an empty removed text, and is
  the very diff of the empty text with \<open>x\<close>, so \<open>before\<close> cannot be recovered from it.
\<close>

theorem computeSimpleDiff_equal_counterexample:
  "computeSimpleDiff ''x'' ''x'' = \<lparr>removed = [], added = ''x''\<rparr> \<and>
   computeSimpleDiff ''x'' ''x'' = computeSimpleDiff [] ''x'' \<and>
   spec_reconstruct_before (simple_diff_hunks (computeSimpleDiff ''x'' ''x'')) = [] \<and>
   spec_reconstruct_before (simple_diff_hunks (computeSimpleDiff ''x'' ''x'')) \<noteq> ''x''"
  by (simp add: computeSimpleDiff_def simple_diff_hunks_def spec_reconstruct_before_def)

section \<open>Revert and apply on the server\<close>

lemma wf_empty_store: "wf_store empty_store"
  by (simp add: wf_store_def empty_store_def)

lemma getVersion_member:
  assumes "distinct (map v_id (st_versions s))" "v \<in> set (st_versions s)"
  shows "getVersion s (v_manuscriptId v) (v_id v) = Some v"
proof -
  have "find (\<lambda>x. v_id x = v_id v \<and> v_manuscriptId x = v_manuscriptId v) vs = Some v"
    if "distinct (map v_id vs)" "v \<in> set vs" for vs
    using that
  proof (induction vs)
    case Nil
    then show ?case by simp
  next
    case (Cons x xs)
    show ?case
    proof (cases "x = v")
      case True
      then show ?thesis by simp
    next
      case False
      with Cons.prems have "v \<in> set xs" "v_id x \<noteq> v_id v" by auto
      with Cons show ?thesis by simp
    qed
  qed
  with assms show ?thesis by (simp add: getVersion_def)
qed

lemma wf_appendVersion:
  assumes "wf_store s" "appendVersion s mid content parent = Inr (v', s')"
  shows "wf_store s'"
proof -
  from assms obtain m where m: "st_manuscripts s mid = Some m"
    by (auto simp add: appendVersion_def split: option.splits)
  let ?v = "\<lparr>v_id = st_clock s, v_manuscriptId = mid, v_content = content,
             v_versionTag = st_clock s, v_createdAt = st_clock s, v_parentVersionId = parent\<rparr>"
  from assms m have v': "v' = ?v"
    and s': "s' = s\<lparr>st_manuscripts := (st_manuscripts s)(mid \<mapsto> m\<lparr>m_currentVersionId := st_clock s\<rparr>),
                   st_versions := ?v # st_versions s, st_clock := Suc (st_clock s)\<rparr>"
    by (auto simp add: appendVersion_def Let_def)
  from assms(1) have a: "\<forall>v \<in> set (st_versions s).
         v_id v < st_clock s \<and> v_createdAt v < st_clock s \<and> v_manuscriptId v \<in> dom (st_manuscripts s)"
    and d: "distinct (map v_id (st_versions s))"
    and o: "sorted_wrt (>) (map v_createdAt (st_versions s))"
    and c: "\<forall>mid m. st_manuscripts s mid = Some m \<longrightarrow>
         (\<exists>v \<in> set (st_versions s). v_id v = m_currentVersionId m \<and> v_manuscriptId v = mid)"
    by (simp_all add: wf_store_def)
  have a': "\<forall>v \<in> set (st_versions s').
         v_id v < st_clock s' \<and> v_createdAt v < st_clock s' \<and> v_manuscriptId v \<in> dom (st_manuscripts s')"
    using a m by (auto simp add: s' less_Suc_eq)
  have d': "distinct (map v_id (st_versions s'))"
    using a d by (auto simp add: s')
  have o': "sorted_wrt (>) (map v_createdAt (st_versions s'))"
    using a o by (auto simp add: s')
  have c': "\<forall>mid m. st_manuscripts s' mid = Some m \<longrightarrow>
         (\<exists>v \<in> set (st_versions s'). v_id v = m_currentVersionId m \<and> v_manuscriptId v = mid)"
    using c by (auto simp add: s')
  from a' d' o' c' show ?thesis by (simp add: wf_store_def)
qed

lemma wf_createManuscript:
  assumes "wf_store s" "createManuscript s title author content = (m, s')"
  shows "wf_store s'"
proof -
  let ?v = "\<lparr>v_id = st_clock s, v_manuscriptId = st_clock s, v_content = content,
             v_versionTag = st_clock s, v_createdAt = st_clock s, v_parentVersionId = None\<rparr>"
  from assms have s': "s' = s\<lparr>st_manuscripts := (st_manuscripts s)(st_clock s \<mapsto> m),
                   st_versions := ?v # st_versions s, st_clock := Suc (st_clock s)\<rparr>"
    and m: "m_currentVersionId m = st_clock s"
    by (auto simp add: createManuscript_def Let_def)
  from assms(1) have a: "\<forall>v \<in> set (st_versions s).
         v_id v < st_clock s \<and> v_createdAt v < st_clock s \<and> v_manuscriptId v \<in> dom (st_manuscripts s)"
    and d: "distinct (map v_id (st_versions s))"
    and o: "sorted_wrt (>) (map v_createdAt (st_versions s))"
    and c: "\<forall>mid m. st_manuscripts s mid = Some m \<longrightarrow>
         (\<exists>v \<in> set (st_versions s). v_id v = m_currentVersionId m \<and> v_manuscriptId v = mid)"
    by (simp_all add: wf_store_def)
  have a': "\<forall>v \<in> set (st_versions s').
         v_id v < st_clock s' \<and> v_createdAt v < st_clock s' \<and> v_manuscriptId v \<in> dom (st_manuscripts s')"
    using a by (auto simp add: s' less_Suc_eq)
  have d': "distinct (map v_id (st_versions s'))"
    using a d by (auto simp add: s')
  have o': "sorted_wrt (>) (map v_createdAt (st_versions s'))"
    using a o by (auto simp add: s')
  have c': "\<forall>mid m. st_manuscripts s' mid = Some m \<longrightarrow>
         (\<exists>v \<in> set (st_versions s'). v_id v = m_currentVersionId m \<and> v_manuscriptId v = mid)"
    using c m by (auto simp add: s')
  from a' d' o' c' show ?thesis by (simp add: wf_store_def)
qed

text \<open>
  The history dialog asks for a revert only of a version that is not current, and names
  that version.
\<close>

lemma handleRevert_request:
  "handleRevert mid version confirmed = [] \<or>
   (\<exists>m. mid = Some m \<and> \<not> is_current version \<and> confirmed \<and>
        handleRevert mid version confirmed = [(m, version_id version)])"
  by (auto simp add: handleRevert_def split: option.splits)

text \<open>
  Claim C1. In a well-formed store, reverting a manuscript to any of its versions \<open>v\<close>
  succeeds with a new version \<open>v'\<close>: afterwards \<open>getCurrent\<close> yields \<open>v'\<close>, whose content (the
  current content) is that of \<open>v\<close> and whose parent is the version that was current; the
  versions are the old ones with \<open>v'\<close> put in front, none changed or removed; and the
  history is the old history with one entry for \<open>v'\<close> in front, the old entries keeping
  their id, tag and creation time (only the current marker has moved to the new entry).
\<close>

theorem revert_appends_version:
  assumes "wf_store s" and "v \<in> set (st_versions s)" and "v_manuscriptId v = mid"
  shows "\<exists>v' s' m h e.
      revert s mid (v_id v) = Inr (v', s') \<and>
      getCurrent s' mid = Inr v' \<and> v_content v' = v_content v \<and>
      getContent s' mid = Inr (v_content v) \<and>
      st_manuscripts s mid = Some m \<and> v_parentVersionId v' = Some (m_currentVersionId m) \<and>
      v' \<notin> set (st_versions s) \<and>
      st_versions s' = v' # st_versions s \<and>
      listVersions s' mid = v' # listVersions s mid \<and>
      listHistory s mid = Inr h \<and>
      listHistory s' mid = Inr (e # map (\<lambda>x. x\<lparr>h_isCurrent := False\<rparr>) h) \<and>
      h_id e = v_id v' \<and> h_isCurrent e \<and>
      wf_store s'"
proof -
  from assms have a: "\<forall>x \<in> set (st_versions s). v_id x < st_clock s"
    and d: "distinct (map v_id (st_versions s))"
    and "mid \<in> dom (st_manuscripts s)"
    by (auto simp add: wf_store_def)
  then obtain m where m: "st_manuscripts s mid = Some m" by auto
  have g: "getVersion s mid (v_id v) = Some v"
    using getVersion_member [OF d assms(2)] assms(3) by simp
  let ?v = "\<lparr>v_id = st_clock s, v_manuscriptId = mid, v_content = v_content v,
             v_versionTag = st_clock s, v_createdAt = st_clock s,
             v_parentVersionId = Some (m_currentVersionId m)\<rparr>"
  let ?s = "s\<lparr>st_manuscripts := (st_manuscripts s)(mid \<mapsto> m\<lparr>m_currentVersionId := st_clock s\<rparr>),
             st_versions := ?v # st_versions s, st_clock := Suc (st_clock s)\<rparr>"
  let ?e = "\<lparr>h_id = st_clock s, h_versionTag = st_clock s, h_createdAt = st_clock s, h_isCurrent = True\<rparr>"
  let ?h = "map (\<lambda>x. \<lparr>h_id = v_id x, h_versionTag = v_versionTag x, h_createdAt = v_createdAt x,
                       h_isCurrent = (v_id x = m_currentVersionId m)\<rparr>) (listVersions s mid)"
  have ap: "appendVersion s mid (v_content v) (Some (m_currentVersionId m)) = Inr (?v, ?s)"
    using m by (simp add: appendVersion_def Let_def)
  have r: "revert s mid (v_id v) = Inr (?v, ?s)"
    using m g ap by (simp add: revert_def)
  have cur: "getCurrent ?s mid = Inr ?v"
    by (simp add: getCurrent_def getVersion_def)
  then have con: "getContent ?s mid = Inr (v_content v)"
    by (simp add: getContent_def)
  have fresh: "?v \<notin> set (st_versions s)" using a by auto
  have lv: "listVersions ?s mid = ?v # listVersions s mid"
    by (simp add: listVersions_def)
  have h: "listHistory s mid = Inr ?h" using m by (simp add: listHistory_def)
  have old: "v_id x \<noteq> st_clock s" if "x \<in> set (listVersions s mid)" for x
    using that a by (auto simp add: listVersions_def)
  have "map (\<lambda>x. \<lparr>h_id = v_id x, h_versionTag = v_versionTag x, h_createdAt = v_createdAt x,
                       h_isCurrent = (v_id x = st_clock s)\<rparr>) (listVersions s mid) =
        map (\<lambda>x. x\<lparr>h_isCurrent := False\<rparr>) ?h"
    using old by (simp add: comp_def)
  then have h': "listHistory ?s mid = Inr (?e # map (\<lambda>x. x\<lparr>h_isCurrent := False\<rparr>) ?h)"
    by (simp add: listHistory_def lv)
  have wf: "wf_store ?s" using assms(1) ap by (rule wf_appendVersion)
  from r cur con m fresh lv h h' wf show ?thesis
    by (intro exI [of _ ?v] exI [of _ ?s] exI [of _ m] exI [of _ ?h] exI [of _ ?e]) simp
qed

lemma wf_example_store: "wf_store example_store"
  by (simp add: wf_store_def example_store_def)

theorem revert_appends_version_witness:
  "wf_store example_store \<and>
   getContent example_store 0 = Inr ''A feline sat.'' \<and>
   (\<exists>v' s' h h'. revert example_store 0 0 = Inr (v', s') \<and>
      getContent s' 0 = Inr ''A cat sat.'' \<and>
      listHistory example_store 0 = Inr h \<and> listHistory s' 0 = Inr h' \<and>
      length h = 2 \<and> length h' = 3 \<and>
      st_versions s' = v' # st_versions example_store)"
proof -
  let ?v0 = "\<lparr>v_id = 0, v_manuscriptId = 0, v_content = ''A cat sat.'', v_versionTag = 0,
          v_createdAt = 0, v_parentVersionId = None\<rparr>"
  have mem: "?v0 \<in> set (st_versions example_store)" by (simp add: example_store_def)
  have mid: "v_manuscriptId ?v0 = 0" by simp
  have c: "getContent example_store 0 = Inr ''A feline sat.''"
    by (simp add: getContent_def getCurrent_def getVersion_def example_store_def)
  have l: "length (listVersions example_store 0) = 2"
    by (simp add: listVersions_def example_store_def)
  from revert_appends_version [OF wf_example_store mem mid]
  obtain v' s' h and e :: history_entry where
    "revert example_store 0 0 = Inr (v', s')" "getContent s' 0 = Inr ''A cat sat.''"
    "st_versions s' = v' # st_versions example_store"
    "listHistory example_store 0 = Inr h"
    "listHistory s' 0 = Inr (e # map (\<lambda>x. x\<lparr>h_isCurrent := False\<rparr>) h)"
    by auto
  moreover from this l have "length h = 2"
    by (auto simp add: listHistory_def example_store_def split: option.splits)
  ultimately show ?thesis using wf_example_store c by auto
qed

text \<open>
  Claim C2. For a session that waits for a choice and an option of it: if the current
  content at the session's recorded range differs from the option's \<open>before\<close>, then
  \<^verbatim>\<open>applyEdit\<close> fails with \<open>Conflict\<close>, the store is unchanged (no version is created and
  the current version stays) and the session is discarded; in the editor, the error
  callback of the apply mutation leaves the state as it was.
\<close>

theorem applyEdit_conflict:
  assumes "sys_sessions sys sid = Some sess" and "es_status sess = OPTIONS_READY"
    and "find (\<lambda>opt. o_optionId opt = oid) (es_options sess) = Some opt"
    and "getContent (sys_store sys) (es_manuscriptId sess) = Inr content"
    and "slice content (es_rangeStart sess) (es_rangeEnd sess) \<noteq> o_before opt"
  shows "fst (applyEdit sys sid oid) = Inl Conflict \<and>
         sys_store (snd (applyEdit sys sid oid)) = sys_store sys \<and>
         getCurrent (sys_store (snd (applyEdit sys sid oid))) (es_manuscriptId sess) =
           getCurrent (sys_store sys) (es_manuscriptId sess) \<and>
         sys_sessions (snd (applyEdit sys sid oid)) sid = Some (sess\<lparr>es_status := DISCARDED\<rparr>) \<and>
         applyEdit_onError est = est"
  using assms by (simp add: applyEdit_def Let_def applyEdit_onError_def)

theorem applyEdit_conflict_witness:
  "sys_sessions example_system 7 = Some example_session \<and>
   getContent (sys_store example_system) 0 = Inr ''A feline sat.'' \<and>
   slice ''A feline sat.'' 2 5 = ''fel'' \<and>
   fst (applyEdit example_system 7 1) = Inl Conflict \<and>
   sys_store (snd (applyEdit example_system 7 1)) = example_store"
proof -
  have s: "sys_sessions example_system 7 = Some example_session"
    by (simp add: example_system_def)
  have st: "es_status example_session = OPTIONS_READY" by (simp add: example_session_def)
  have f: "find (\<lambda>opt. o_optionId opt = 1) (es_options example_session) =
      Some \<lparr>o_optionId = 1, o_label = ''A'', o_before = ''cat'', o_after = ''tabby'',
                     o_diff = [], o_severity = SevLight\<rparr>"
    by (simp add: example_session_def)
  have c: "getContent (sys_store example_system) (es_manuscriptId example_session) = Inr ''A feline sat.''"
    by (simp add: getContent_def getCurrent_def getVersion_def example_store_def
        example_system_def example_session_def)
  have sl: "slice ''A feline sat.'' 2 5 = ''fel''" by (simp add: slice_def)
  have ne: "slice ''A feline sat.'' (es_rangeStart example_session) (es_rangeEnd example_session) \<noteq>
      o_before \<lparr>o_optionId = 1, o_label = ''A'', o_before = ''cat'', o_after = ''tabby'',
                     o_diff = [], o_severity = SevLight\<rparr>"
    by (simp add: slice_def example_session_def)
  from applyEdit_conflict [OF s st f c ne] s c sl show ?thesis
    by (simp add: example_system_def example_session_def)
qed

end
